theory Spec2Isabelle
  imports Complex_Main
begin

section \<open>Data model (sdk/src/types.ts, sdk/src/constants.ts)\<close>

text \<open>
  A \<open>BN\<close> of bn.js is an arbitrary-precision integer and is modelled as \<open>int\<close>.
  A \<open>PublicKey\<close> is the byte buffer it wraps; a \<open>Buffer\<close> is a list of bytes, each
  byte a natural number below 256.  A JavaScript string is a list of its code units, so
  that \<open>length\<close> is the source's \<open>.length\<close>.
\<close>

type_synonym BN = int
type_synonym Buffer = "nat list"

datatype PublicKey = PublicKey (toBuffer: Buffer)

datatype AgentPermission =
    TRANSFER_SOL | SWAP_TOKENS | NFT_OPERATIONS | STAKING_PERMISSION
  | GOVERNANCE_PERMISSION | DEFI_PROTOCOLS | TOKEN_ACCOUNTS | EXECUTE_PROGRAMS

datatype ActivityType =
    TRANSFER | SWAP | NFT_OPERATION | STAKING | GOVERNANCE
  | DEFI_INTERACTION | FUNDING | WITHDRAWAL | OTHER

record ProtocolConfig =
  authority :: PublicKey
  merkleTree :: PublicKey
  totalAgents :: BN
  version :: int
  paused :: bool
  config_bump :: int

record AgentAccount =
  mainWallet :: PublicKey
  agentId :: BN
  name :: string
  permissions :: "AgentPermission list"
  maxSolPerTransaction :: BN
  dailyLimit :: BN
  spentToday :: BN
  lastDailyReset :: BN
  totalSpent :: BN
  totalTransactions :: BN
  revoked :: bool
  createdAt :: BN
  lastUsedAt :: BN
  leafIndex :: int
  bump :: int

text \<open>
  A JavaScript \<open>Date\<close> is its time value in milliseconds since the epoch, or invalid
  when the time value is outside the range a \<open>Date\<close> can hold.
\<close>

datatype Date = Date int | InvalidDate

record AgentStats =
  stats_totalSpent :: rat
  stats_spentToday :: rat
  stats_totalTransactions :: int
  stats_remainingDailyLimit :: rat
  stats_createdAt :: Date
  stats_lastUsedAt :: Date

record TransactionResult =
  signature :: string
  success :: bool
  error :: "string option"

text \<open>Thrown values: \<open>Error(message)\<close> and Node's \<open>RangeError\<close>.\<close>

datatype js_error = Error string | RangeError string

definition MAX_AGENTS_PER_WALLET :: int where
  "MAX_AGENTS_PER_WALLET = 10000"

definition MAX_AGENT_NAME_LENGTH :: nat where
  "MAX_AGENT_NAME_LENGTH = 32"

definition MAX_REASON_LENGTH :: nat where
  "MAX_REASON_LENGTH = 128"

definition MIN_AGENT_BALANCE :: int where
  "MIN_AGENT_BALANCE = 5000000"

definition LAMPORTS_PER_SOL :: int where
  "LAMPORTS_PER_SOL = 1000000000"

definition DAILY_WINDOW_SECONDS :: int where
  "DAILY_WINDOW_SECONDS = 86400"

definition utf8 :: "string \<Rightarrow> Buffer" where
  "utf8 s = map of_char s"

definition PROTOCOL_SEED :: Buffer where
  "PROTOCOL_SEED = utf8 ''dimm_protocol''"

definition AGENT_SEED :: Buffer where
  "AGENT_SEED = utf8 ''dimm_agent''"

definition ACTIVITY_SEED :: Buffer where
  "ACTIVITY_SEED = utf8 ''dimm_activity''"

section \<open>JavaScript numbers\<close>

text \<open>
  A JavaScript number is an IEEE-754 binary64 value: a finite value, kept as the rational
  it denotes, one of the two infinities, or NaN.  The sign of a zero is not kept; the
  code modelled here reads \<open>-0\<close> as \<open>0\<close>.
\<close>

datatype js_number = Finite rat | PosInfinity | NegInfinity | NaN

text \<open>Rounding to the nearest integer, ties to the even one.\<close>

definition round_half_even :: "rat \<Rightarrow> int" where
  "round_half_even n =
     (let f = \<lfloor>n\<rfloor>; d = n - of_int f
      in if d < 1 / 2 then f else if 1 / 2 < d then f + 1 else if even f then f else f + 1)"

text \<open>The integer logarithm: \<open>2 ^ ilog2 n \<le> n < 2 ^ (ilog2 n + 1)\<close> for \<open>n \<ge> 1\<close>.\<close>

function ilog2 :: "int \<Rightarrow> int" where
  "ilog2 n = (if n \<le> 1 then 0 else 1 + ilog2 (n div 2))"
  by pat_completeness auto
termination
  by (relation "measure nat") auto

declare ilog2.simps [simp del]

text \<open>The binary exponent of a positive rational: \<open>2 ^ e \<le> a < 2 ^ (e + 1)\<close>.\<close>

definition floor_log2 :: "rat \<Rightarrow> int" where
  "floor_log2 a =
     (if 1 \<le> a then ilog2 \<lfloor>a\<rfloor> else - (ilog2 (\<lceil>1 / a\<rceil> - 1) + 1))"

text \<open>
  The exact result of an operation is rounded to 53 significant bits, or to a multiple of
  \<open>2 ^ -1074\<close> in the subnormal range, ties to even; a result that reaches \<open>2 ^ 1024\<close>
  becomes an infinity.  A decimal literal is rounded the same way: the number written
  \<open>2.01\<close> is \<open>js_of_rat (201 / 100)\<close>.
\<close>

definition round_binary64 :: "rat \<Rightarrow> rat" where
  "round_binary64 q =
     (if q = 0 then 0
      else let p = max (floor_log2 \<bar>q\<bar>) (- 1022) - 52
           in sgn q * (of_int (round_half_even (\<bar>q\<bar> / 2 powi p)) * 2 powi p))"

definition js_of_rat :: "rat \<Rightarrow> js_number" where
  "js_of_rat q =
     (let r = round_binary64 q
      in if 2 ^ 1024 \<le> r then PosInfinity
         else if r \<le> - (2 ^ 1024) then NegInfinity
         else Finite r)"

text \<open>The operator \<open>*\<close> on numbers.\<close>

fun js_times :: "js_number \<Rightarrow> js_number \<Rightarrow> js_number" where
  "js_times NaN y = NaN"
| "js_times x NaN = NaN"
| "js_times (Finite a) (Finite b) = js_of_rat (a * b)"
| "js_times (Finite a) PosInfinity =
     (if a = 0 then NaN else if 0 < a then PosInfinity else NegInfinity)"
| "js_times (Finite a) NegInfinity =
     (if a = 0 then NaN else if 0 < a then NegInfinity else PosInfinity)"
| "js_times PosInfinity (Finite b) =
     (if b = 0 then NaN else if 0 < b then PosInfinity else NegInfinity)"
| "js_times NegInfinity (Finite b) =
     (if b = 0 then NaN else if 0 < b then NegInfinity else PosInfinity)"
| "js_times PosInfinity PosInfinity = PosInfinity"
| "js_times PosInfinity NegInfinity = NegInfinity"
| "js_times NegInfinity PosInfinity = NegInfinity"
| "js_times NegInfinity NegInfinity = PosInfinity"

text \<open>The operator \<open><=\<close> on numbers: NaN compares false with everything.\<close>

fun js_le :: "js_number \<Rightarrow> js_number \<Rightarrow> bool" where
  "js_le NaN y = False"
| "js_le x NaN = False"
| "js_le NegInfinity y = True"
| "js_le x PosInfinity = True"
| "js_le (Finite a) (Finite b) = (a \<le> b)"
| "js_le PosInfinity y = False"
| "js_le x NegInfinity = False"

text \<open>
  \<open>new BN(number)\<close> of bn.js for a JavaScript number.  The constructor passes
  \<open>number || 0\<close> on, so NaN gives zero.  \<open>_initNumber\<close> takes the sign off, asserts
  that the magnitude is below \<open>0x20000000000000\<close> (\<open>2^53\<close>) and builds the 26-bit
  words of its integer part: the value is the number truncated toward zero.
\<close>

definition newBN :: "js_number \<Rightarrow> js_error + BN" where
  "newBN number =
     (case number of
        NaN \<Rightarrow> Inr 0
      | PosInfinity \<Rightarrow> Inl (Error ''Assertion failed'')
      | NegInfinity \<Rightarrow> Inl (Error ''Assertion failed'')
      | Finite r \<Rightarrow>
          if \<bar>r\<bar> < 2 ^ 53 then Inr (if r < 0 then - \<lfloor>- r\<rfloor> else \<lfloor>r\<rfloor>)
          else Inl (Error ''Assertion failed''))"

section \<open>Helpers of sdk/src/utils.ts\<close>

text \<open>\<open>solToLamports\<close>: the product is a double, \<open>new BN\<close> truncates it or throws.\<close>

definition solToLamports :: "js_number \<Rightarrow> js_error + BN" where
  "solToLamports sol = newBN (js_times sol (Finite (of_int LAMPORTS_PER_SOL)))"

text \<open>
  \<open>BN.toNumber\<close> of bn.js returns the value when it fits 53 bits and throws
  otherwise.  The quotient of \<open>lamportsToSol\<close> is kept exact: the rounding of the
  IEEE-754 division to a double is outside the model.
\<close>

definition toNumber :: "BN \<Rightarrow> js_error + int" where
  "toNumber n =
     (if \<bar>n\<bar> < 2 ^ 53 then Inr n
      else Inl (Error ''Number can only safely store up to 53 bits''))"

definition lamportsToSol :: "BN \<Rightarrow> js_error + rat" where
  "lamportsToSol lamports =
     (case toNumber lamports of
        Inl e \<Rightarrow> Inl e
      | Inr n \<Rightarrow> Inr (rat_of_int n / rat_of_int LAMPORTS_PER_SOL))"

text \<open>
  \<open>new Date(v)\<close> is invalid when \<open>\<bar>v\<bar>\<close> exceeds 8.64e15 milliseconds; below that
  bound the product \<open>timestamp.toNumber() * 1000\<close> is exact in a double.
\<close>

definition newDate :: "int \<Rightarrow> Date" where
  "newDate v = (if \<bar>v\<bar> \<le> 8640000000000000 then Date v else InvalidDate)"

definition formatTimestamp :: "BN \<Rightarrow> js_error + Date" where
  "formatTimestamp timestamp =
     (case toNumber timestamp of
        Inl e \<Rightarrow> Inl e
      | Inr n \<Rightarrow> Inr (newDate (n * 1000)))"

definition validateAgentName :: "string \<Rightarrow> bool" where
  "validateAgentName nm = (length nm > 0 \<and> length nm \<le> 32)"

definition validateReason :: "string \<Rightarrow> bool" where
  "validateReason reason = (length reason \<le> 128)"

section \<open>The Agent class (sdk/src/agent.ts)\<close>

record Agent =
  address :: PublicKey
  data :: AgentAccount

text \<open>
  \<open>Agent.getStats\<close>.  The fields of the object literal are evaluated in the order
  they are written; the first \<open>toNumber\<close> that throws ends the call.
\<close>

definition getStats :: "AgentAccount \<Rightarrow> js_error + AgentStats" where
  "getStats d =
     (case lamportsToSol (totalSpent d) of Inl e \<Rightarrow> Inl e | Inr ts \<Rightarrow>
     (case lamportsToSol (spentToday d) of Inl e \<Rightarrow> Inl e | Inr st \<Rightarrow>
     (case toNumber (totalTransactions d) of Inl e \<Rightarrow> Inl e | Inr tt \<Rightarrow>
     (case lamportsToSol (dailyLimit d - spentToday d) of Inl e \<Rightarrow> Inl e | Inr rl \<Rightarrow>
     (case formatTimestamp (createdAt d) of Inl e \<Rightarrow> Inl e | Inr ca \<Rightarrow>
     (case formatTimestamp (lastUsedAt d) of Inl e \<Rightarrow> Inl e | Inr lu \<Rightarrow>
        Inr \<lparr> stats_totalSpent = ts, stats_spentToday = st,
              stats_totalTransactions = tt, stats_remainingDailyLimit = rl,
              stats_createdAt = ca, stats_lastUsedAt = lu \<rparr>))))))"

text \<open>
  \<open>Agent.canSpend\<close>.  Line 59 builds \<open>amountLamports\<close> from the number
  \<open>amountSol\<close> and may throw; the two early returns are kept as the source writes
  them.
\<close>

definition canSpend :: "AgentAccount \<Rightarrow> js_number \<Rightarrow> js_error + bool" where
  "canSpend d amountSol =
     (case newBN (js_times amountSol (Finite 1000000000)) of
        Inl e \<Rightarrow> Inl e
      | Inr amountLamports \<Rightarrow>
          if amountLamports > maxSolPerTransaction d then Inr False
          else let newDailyTotal = spentToday d + amountLamports
               in if newDailyTotal > dailyLimit d then Inr False else Inr True)"

text \<open>
  Lines 61 to 72 of \<open>Agent.canSpend\<close> alone: the two checks on an
  \<open>amountLamports\<close> that line 59 has built.
\<close>

definition canSpend_checks :: "AgentAccount \<Rightarrow> BN \<Rightarrow> bool" where
  "canSpend_checks d amountLamports =
     (if amountLamports > maxSolPerTransaction d then False
      else let newDailyTotal = spentToday d + amountLamports
           in if newDailyTotal > dailyLimit d then False else True)"

definition isActive :: "AgentAccount \<Rightarrow> bool" where
  "isActive d = (\<not> revoked d)"

section \<open>The spending rule as the specification words it\<close>

text \<open>
  Section 4.3 of the specification, in its words, for comparison with the methods of the
  SDK.  The lazy reset: when \<open>now - lastDailyReset \<ge> 86400\<close>, \<open>spentToday\<close> becomes 0
  and \<open>lastDailyReset\<close> becomes \<open>now\<close>.
\<close>

definition spec_lazyReset :: "int \<Rightarrow> AgentAccount \<Rightarrow> AgentAccount" where
  "spec_lazyReset now d =
     (if now - lastDailyReset d \<ge> DAILY_WINDOW_SECONDS
      then d\<lparr>spentToday := 0, lastDailyReset := now\<rparr> else d)"

text \<open>The spending check of the specification: the reset first, then the two limits.\<close>

definition spec_canSpend :: "int \<Rightarrow> AgentAccount \<Rightarrow> BN \<Rightarrow> bool" where
  "spec_canSpend now d amount =
     (let d' = spec_lazyReset now d
      in amount \<le> maxSolPerTransaction d' \<and> spentToday d' + amount \<le> dailyLimit d')"

text \<open>Reading the statistics as the specification has it: the reset first.\<close>

definition spec_getStats :: "int \<Rightarrow> AgentAccount \<Rightarrow> js_error + AgentStats" where
  "spec_getStats now d = getStats (spec_lazyReset now d)"

section \<open>Address derivation (sdk/src/utils.ts)\<close>

text \<open>
  \<open>Buffer.alloc(8)\<close> followed by \<open>writeBigUInt64LE(BigInt(v.toString()))\<close>: Node
  throws a \<open>RangeError\<close> unless \<open>0 \<le> v < 2^64\<close>, and otherwise stores the value
  least significant byte first.
\<close>

fun le_bytes :: "nat \<Rightarrow> nat \<Rightarrow> Buffer" where
  "le_bytes 0 v = []"
| "le_bytes (Suc k) v = (v mod 256) # le_bytes k (v div 256)"

definition writeBigUInt64LE :: "BN \<Rightarrow> js_error + Buffer" where
  "writeBigUInt64LE v =
     (if 0 \<le> v \<and> v < 2 ^ 64 then Inr (le_bytes 8 (nat v))
      else Inl (RangeError ''ERR_OUT_OF_RANGE''))"

text \<open>The value a little-endian byte sequence denotes.\<close>

fun le_value :: "Buffer \<Rightarrow> nat" where
  "le_value [] = 0"
| "le_value (b # bs) = b + 256 * le_value bs"

text \<open>
  \<open>PublicKey.findProgramAddressSync\<close> belongs to web3.js; it is a parameter
  \<open>findPDA\<close> of the three derivations, from the seed list and the program id to the
  address and its bump.  The default argument \<open>DIMM_PROGRAM_ID\<close> is passed by the
  caller.
\<close>

type_synonym findProgramAddressSync = "Buffer list \<Rightarrow> PublicKey \<Rightarrow> PublicKey \<times> nat"

definition getProtocolConfigPDA ::
  "findProgramAddressSync \<Rightarrow> PublicKey \<Rightarrow> PublicKey \<Rightarrow> PublicKey \<times> nat" where
  "getProtocolConfigPDA findPDA auth progId =
     findPDA [PROTOCOL_SEED, toBuffer auth] progId"

definition getAgentAccountPDA ::
  "findProgramAddressSync \<Rightarrow> PublicKey \<Rightarrow> BN \<Rightarrow> PublicKey \<Rightarrow> js_error + PublicKey \<times> nat" where
  "getAgentAccountPDA findPDA wallet aid progId =
     (case writeBigUInt64LE aid of
        Inl e \<Rightarrow> Inl e
      | Inr agentIdBuffer \<Rightarrow> Inr (findPDA [AGENT_SEED, toBuffer wallet, agentIdBuffer] progId))"

definition getActivityPDA ::
  "findProgramAddressSync \<Rightarrow> PublicKey \<Rightarrow> BN \<Rightarrow> PublicKey \<Rightarrow> js_error + PublicKey \<times> nat" where
  "getActivityPDA findPDA agentAccount transactionCount progId =
     (case writeBigUInt64LE transactionCount of
        Inl e \<Rightarrow> Inl e
      | Inr txCountBuffer \<Rightarrow>
          Inr (findPDA [ACTIVITY_SEED, toBuffer agentAccount, txCountBuffer] progId))"

section \<open>The DimmClient class (sdk/src/client.ts)\<close>

text \<open>
  The network is a world \<open>'w\<close> that every awaited call reads and may change.  A client
  object is the record of what its users reach through \<open>this\<close>: the wallet key, the
  two web3.js entry points \<open>connection.getAccountInfo\<close> and
  \<open>sendAndConfirmTransaction\<close>, the address derivation with its default program id,
  and the two fetch methods \<open>getAgentAccount\<close> and \<open>getProtocolConfig\<close>, which
  the other methods call through \<open>this\<close>.  \<open>console.error\<close> is not modelled.
\<close>

type_synonym AccountInfo = Buffer
type_synonym Transaction = "Buffer list"

record 'w DimmClient =
  wallet_publicKey :: PublicKey
  DIMM_PROGRAM_ID :: PublicKey
  findProgramAddressSync :: findProgramAddressSync
  getAccountInfo :: "PublicKey \<Rightarrow> 'w \<Rightarrow> (js_error + AccountInfo option) \<times> 'w"
  sendAndConfirmTransaction :: "Transaction \<Rightarrow> 'w \<Rightarrow> (js_error + string) \<times> 'w"
  getAgentAccount :: "PublicKey \<Rightarrow> 'w \<Rightarrow> AgentAccount option \<times> 'w"
  getProtocolConfig :: "'w \<Rightarrow> ProtocolConfig option \<times> 'w"

definition message :: "js_error \<Rightarrow> string" where
  "message e = (case e of Error m \<Rightarrow> m | RangeError m \<Rightarrow> m)"

text \<open>
  \<open>DimmClient.getAgentAccount\<close> as the class writes it: the account is read, and
  \<open>null\<close> is returned on every path (a missing account, the placeholder for the
  deserialisation, and the \<open>catch\<close>).
\<close>

definition DimmClient_getAgentAccount ::
  "(PublicKey \<Rightarrow> 'w \<Rightarrow> (js_error + AccountInfo option) \<times> 'w)
     \<Rightarrow> PublicKey \<Rightarrow> 'w \<Rightarrow> AgentAccount option \<times> 'w" where
  "DimmClient_getAgentAccount getInfo addr w =
     (case getInfo addr w of
        (Inl e, w') \<Rightarrow> (None, w')
      | (Inr None, w') \<Rightarrow> (None, w')
      | (Inr (Some accountInfo), w') \<Rightarrow> (None, w'))"

text \<open>\<open>DimmClient.getProtocolConfig\<close> as the class writes it.\<close>

definition DimmClient_getProtocolConfig ::
  "findProgramAddressSync \<Rightarrow> PublicKey \<Rightarrow> PublicKey
     \<Rightarrow> (PublicKey \<Rightarrow> 'w \<Rightarrow> (js_error + AccountInfo option) \<times> 'w)
     \<Rightarrow> 'w \<Rightarrow> ProtocolConfig option \<times> 'w" where
  "DimmClient_getProtocolConfig findPDA wallet progId getInfo w =
     (case getProtocolConfigPDA findPDA wallet progId of
        (protocolConfigPDA, b) \<Rightarrow>
          (case getInfo protocolConfigPDA w of
             (Inl e, w') \<Rightarrow> (None, w')
           | (Inr None, w') \<Rightarrow> (None, w')
           | (Inr (Some accountInfo), w') \<Rightarrow> (None, w')))"

text \<open>\<open>new DimmClient(connection, wallet)\<close>: the object with the class's own methods.\<close>

definition newDimmClient ::
  "findProgramAddressSync \<Rightarrow> PublicKey
     \<Rightarrow> (PublicKey \<Rightarrow> 'w \<Rightarrow> (js_error + AccountInfo option) \<times> 'w)
     \<Rightarrow> (Transaction \<Rightarrow> 'w \<Rightarrow> (js_error + string) \<times> 'w)
     \<Rightarrow> PublicKey \<Rightarrow> 'w DimmClient" where
  "newDimmClient findPDA progId getInfo send wallet =
     \<lparr> wallet_publicKey = wallet, DIMM_PROGRAM_ID = progId,
       findProgramAddressSync = findPDA, getAccountInfo = getInfo,
       sendAndConfirmTransaction = send,
       getAgentAccount = DimmClient_getAgentAccount getInfo,
       getProtocolConfig = DimmClient_getProtocolConfig findPDA wallet progId getInfo \<rparr>"

text \<open>\<open>DimmClient.getAgent\<close>: the derivation may throw, the fetch may yield nothing.\<close>

definition getAgent ::
  "'w DimmClient \<Rightarrow> BN \<Rightarrow> 'w \<Rightarrow> (js_error + Agent option) \<times> 'w" where
  "getAgent c aid w =
     (case getAgentAccountPDA (findProgramAddressSync c) (wallet_publicKey c) aid
             (DIMM_PROGRAM_ID c) of
        Inl e \<Rightarrow> (Inl e, w)
      | Inr (agentPDA, b) \<Rightarrow>
          (case getAgentAccount c agentPDA w of
             (None, w') \<Rightarrow> (Inr None, w')
           | (Some agentAccount, w') \<Rightarrow>
               (Inr (Some \<lparr> address = agentPDA, data = agentAccount \<rparr>), w')))"

text \<open>
  The loop of \<open>DimmClient.listAgents\<close>: the condition \<open>i < totalAgents.toNumber()\<close>
  is evaluated before every iteration, \<open>agents.push\<close> appends.
\<close>

function listAgents_loop ::
  "'w DimmClient \<Rightarrow> BN \<Rightarrow> int \<Rightarrow> Agent list \<Rightarrow> 'w \<Rightarrow> (js_error + Agent list) \<times> 'w" where
  "listAgents_loop c cnt i agents w =
     (case toNumber cnt of
        Inl e \<Rightarrow> (Inl e, w)
      | Inr n \<Rightarrow>
          if i < n then
            (case getAgent c i w of
               (Inl e, w') \<Rightarrow> (Inl e, w')
             | (Inr None, w') \<Rightarrow> listAgents_loop c cnt (i + 1) agents w'
             | (Inr (Some agent), w') \<Rightarrow> listAgents_loop c cnt (i + 1) (agents @ [agent]) w')
          else (Inr agents, w))"
  by pat_completeness auto
termination
  by (relation "measure (\<lambda>(c, cnt, i, agents, w). nat (cnt - i))")
     (auto simp: toNumber_def split: if_splits)

declare listAgents_loop.simps [simp del]

definition listAgents :: "'w DimmClient \<Rightarrow> 'w \<Rightarrow> (js_error + Agent list) \<times> 'w" where
  "listAgents c w =
     (case getProtocolConfig c w of
        (None, w') \<Rightarrow> (Inr [], w')
      | (Some protocolConfig, w') \<Rightarrow> listAgents_loop c (totalAgents protocolConfig) 0 [] w')"

text \<open>
  \<open>DimmClient.createAgent\<close>.  The name check and the two derivations are outside the
  \<open>try\<close>; whatever is thrown inside it is rethrown with the prefix
  \<open>Failed to create agent: \<close>.  The protocol configuration address is derived and
  not used; its derivation cannot throw and is left out.  The transaction sent is empty.
\<close>

record CreateAgentParams =
  param_name :: string
  param_permissions :: "AgentPermission list"
  param_maxSolPerTransaction :: BN
  param_dailyLimit :: BN

definition createAgent ::
  "'w DimmClient \<Rightarrow> CreateAgentParams \<Rightarrow> 'w \<Rightarrow> (js_error + Agent) \<times> 'w" where
  "createAgent c params w =
     (if \<not> validateAgentName (param_name params) then (Inl (Error ''Invalid agent name''), w)
      else
        (case getProtocolConfig c w of
           (protocolConfig, w1) \<Rightarrow>
             (let aid = (case protocolConfig of Some cfg \<Rightarrow> totalAgents cfg | None \<Rightarrow> 0)
              in case getAgentAccountPDA (findProgramAddressSync c) (wallet_publicKey c) aid
                        (DIMM_PROGRAM_ID c) of
                   Inl e \<Rightarrow> (Inl e, w1)
                 | Inr (agentPDA, b) \<Rightarrow>
                     (case sendAndConfirmTransaction c [] w1 of
                        (Inl e, w2) \<Rightarrow>
                          (Inl (Error (''Failed to create agent: '' @ message e)), w2)
                      | (Inr sig, w2) \<Rightarrow>
                          (case getAgentAccount c agentPDA w2 of
                             (None, w3) \<Rightarrow>
                               (Inl (Error (''Failed to create agent: ''
                                              @ ''Failed to fetch created agent'')), w3)
                           | (Some agentAccount, w3) \<Rightarrow>
                               (Inr \<lparr> address = agentPDA, data = agentAccount \<rparr>, w3))))))"

text \<open>
  \<open>DimmClient.revokeAgent\<close>: an empty transaction is sent; the agent address is not
  used.  \<open>Agent.revoke\<close> passes the call on and leaves the agent object as it is.
\<close>

definition revokeAgent :: "'w DimmClient \<Rightarrow> PublicKey \<Rightarrow> 'w \<Rightarrow> TransactionResult \<times> 'w" where
  "revokeAgent c agentAddress w =
     (case sendAndConfirmTransaction c [] w of
        (Inr sig, w') \<Rightarrow> (\<lparr> signature = sig, success = True, error = None \<rparr>, w')
      | (Inl e, w') \<Rightarrow> (\<lparr> signature = [], success = False, error = Some (message e) \<rparr>, w'))"

definition revoke :: "'w DimmClient \<Rightarrow> Agent \<Rightarrow> 'w \<Rightarrow> (TransactionResult \<times> Agent) \<times> 'w" where
  "revoke c agent w =
     (case revokeAgent c (address agent) w of (r, w') \<Rightarrow> ((r, agent), w'))"

text \<open>\<open>Agent.reload\<close>: the fetched account replaces \<open>data\<close> only when there is one.\<close>

definition reload :: "'w DimmClient \<Rightarrow> Agent \<Rightarrow> 'w \<Rightarrow> Agent \<times> 'w" where
  "reload c agent w =
     (case getAgentAccount c (address agent) w of
        (Some account, w') \<Rightarrow> (agent\<lparr>data := account\<rparr>, w')
      | (None, w') \<Rightarrow> (agent, w'))"

section \<open>The listing as a sequence of lookups\<close>

text \<open>
  The address \<open>getAgent\<close> fetches for an agent id, and a listing written as plain
  lookups: one fetch per id, in the order of the list, each on the world the previous one
  left; the agents found are kept in that order.
\<close>

definition agentAddress :: "'w DimmClient \<Rightarrow> BN \<Rightarrow> PublicKey" where
  "agentAddress c aid =
     fst (findProgramAddressSync c
            [AGENT_SEED, toBuffer (wallet_publicKey c), le_bytes 8 (nat aid)]
            (DIMM_PROGRAM_ID c))"

fun lookupAgents :: "'w DimmClient \<Rightarrow> BN list \<Rightarrow> 'w \<Rightarrow> Agent list \<times> 'w" where
  "lookupAgents c [] w = ([], w)"
| "lookupAgents c (aid # aids) w =
     (case getAgentAccount c (agentAddress c aid) w of
        (None, w') \<Rightarrow> lookupAgents c aids w'
      | (Some account, w') \<Rightarrow>
          (case lookupAgents c aids w' of
             (found, w'') \<Rightarrow> (\<lparr> address = agentAddress c aid, data = account \<rparr> # found, w'')))"

section \<open>The on-chain engine, from the specification\<close>

text \<open>
  The Anchor program (\<open>programs/dimm/src\<close>: \<open>create_agent\<close>, \<open>revoke_agent\<close>,
  \<open>update_permissions\<close>, \<open>update_limits\<close>, \<open>execute_transaction\<close>,
  \<open>fund_agent\<close>, \<open>withdraw_from_agent\<close>) is not among the source files: only its
  callers in the SDK, its constants, its error enumeration and its test are.  The
  definitions of this section follow the words of the specification.
\<close>

text \<open>The error enumeration as docs/program.md declares it.\<close>

datatype DimmError =
    AgentNameTooLong | ExceedsTransactionLimit | ExceedsDailyLimit
  | InsufficientPermissions | AgentRevoked | InvalidAmount | InsufficientBalance
  | MaxAgentsReached | ReasonTooLong | InvalidMerkleProof | AgentNotFound
  | Unauthorized | InvalidPermission | InvalidLimitConfiguration
  | InsufficientAgentBalance | NumericalOverflow | InvalidActivityWindow

text \<open>
  Modelled from the spec: the integer type of the counters is missing from the SDK.
  docs/program.md declares them as 64-bit unsigned.
\<close>

definition U64_MAX :: int where
  "U64_MAX = 2 ^ 64 - 1"

text \<open>
  Modelled from the spec: the handler \<open>revoke_agent\<close> is missing.  Section 4.1:
  owner-only; fails with the already-revoked error when \<open>revoked\<close> is set; otherwise
  sets \<open>revoked = true\<close>.
\<close>

definition spec_revoke :: "PublicKey \<Rightarrow> AgentAccount \<Rightarrow> DimmError + AgentAccount" where
  "spec_revoke caller a =
     (if caller \<noteq> mainWallet a then Inl Unauthorized
      else if revoked a then Inl AgentRevoked
      else Inr (a\<lparr>revoked := True\<rparr>))"

text \<open>
  Modelled from the spec: the handler \<open>update_permissions\<close> is missing.  Section 4.2:
  owner-only, full replacement of the capability set.
\<close>

definition spec_replacePermissions ::
  "PublicKey \<Rightarrow> AgentPermission list \<Rightarrow> AgentAccount \<Rightarrow> DimmError + AgentAccount" where
  "spec_replacePermissions caller newSet a =
     (if caller \<noteq> mainWallet a then Inl Unauthorized
      else Inr (a\<lparr>permissions := newSet\<rparr>))"

text \<open>
  Modelled from the spec: the handler \<open>update_limits\<close> is missing.  Section 4.3:
  owner-only; each limit is replaced when given; the resulting values must satisfy
  \<open>dailyLimit \<ge> maxPerOperation\<close>; \<open>spentToday\<close> is not adjusted.
\<close>

definition spec_updateLimits ::
  "PublicKey \<Rightarrow> BN option \<Rightarrow> BN option \<Rightarrow> AgentAccount \<Rightarrow> DimmError + AgentAccount" where
  "spec_updateLimits caller newMaxPerOperation newDailyLimit a =
     (if caller \<noteq> mainWallet a then Inl Unauthorized
      else
        let m = (case newMaxPerOperation of Some v \<Rightarrow> v | None \<Rightarrow> maxSolPerTransaction a);
            l = (case newDailyLimit of Some v \<Rightarrow> v | None \<Rightarrow> dailyLimit a)
        in if l \<ge> m then Inr (a\<lparr>maxSolPerTransaction := m, dailyLimit := l\<rparr>)
           else Inl InvalidLimitConfiguration)"

text \<open>
  Modelled from the spec: the permission table of the program is missing.  Section 4.2:
  the capability an activity type requires, if any.
\<close>

fun spec_requiredCapability :: "ActivityType \<Rightarrow> AgentPermission option" where
  "spec_requiredCapability TRANSFER = Some TRANSFER_SOL"
| "spec_requiredCapability SWAP = Some SWAP_TOKENS"
| "spec_requiredCapability NFT_OPERATION = Some NFT_OPERATIONS"
| "spec_requiredCapability STAKING = Some STAKING_PERMISSION"
| "spec_requiredCapability GOVERNANCE = Some GOVERNANCE_PERMISSION"
| "spec_requiredCapability DEFI_INTERACTION = Some DEFI_PROTOCOLS"
| "spec_requiredCapability FUNDING = None"
| "spec_requiredCapability WITHDRAWAL = None"
| "spec_requiredCapability OTHER = None"

text \<open>
  Modelled from the spec: the recording step of \<open>execute_transaction\<close> is missing.
  Section 4.3: the three counters are increased with overflow checks on 64-bit unsigned
  values, \<open>lastUsedAt\<close> becomes \<open>now\<close>.
\<close>

definition spec_record :: "int \<Rightarrow> BN \<Rightarrow> AgentAccount \<Rightarrow> DimmError + AgentAccount" where
  "spec_record now amount a =
     (if spentToday a + amount > U64_MAX then Inl NumericalOverflow
      else if totalSpent a + amount > U64_MAX then Inl NumericalOverflow
      else if totalTransactions a + 1 > U64_MAX then Inl NumericalOverflow
      else Inr (a\<lparr>spentToday := spentToday a + amount,
                  totalSpent := totalSpent a + amount,
                  totalTransactions := totalTransactions a + 1,
                  lastUsedAt := now\<rparr>))"

text \<open>
  Modelled from the spec: the handler \<open>execute_transaction\<close> is missing.  Section 4.4,
  steps 1 to 4, as they change the agent account; \<open>agentBalance\<close> is the balance the
  agent holds when the operation starts.
\<close>

definition spec_execute ::
  "int \<Rightarrow> ActivityType \<Rightarrow> BN \<Rightarrow> int \<Rightarrow> AgentAccount \<Rightarrow> DimmError + AgentAccount" where
  "spec_execute now activityType amount agentBalance a =
     (if revoked a then Inl AgentRevoked
      else if (case spec_requiredCapability activityType of
                 Some cap \<Rightarrow> cap \<notin> set (permissions a) | None \<Rightarrow> False)
           then Inl InsufficientPermissions
      else
        let a' = spec_lazyReset now a
        in if amount > maxSolPerTransaction a' then Inl ExceedsTransactionLimit
           else if spentToday a' + amount > dailyLimit a' then Inl ExceedsDailyLimit
           else if agentBalance - amount < MIN_AGENT_BALANCE then Inl InsufficientBalance
           else spec_record now amount a')"

text \<open>
  Modelled from the spec: the handler \<open>fund_agent\<close> is missing.  Section 4.6: the
  amount must be positive; funding is permitted whatever the capability set is and leaves
  the agent account as it is.
\<close>

definition spec_fund :: "BN \<Rightarrow> AgentAccount \<Rightarrow> DimmError + AgentAccount" where
  "spec_fund amount a = (if amount > 0 then Inr a else Inl InvalidAmount)"

text \<open>
  Modelled from the spec: the handler \<open>withdraw_from_agent\<close> is missing.  Section 4.6:
  owner-only; fails with \<open>InsufficientAgentBalance\<close> unless the resulting balance stays
  at or above the minimum reserve; the agent account is left as it is.
\<close>

definition spec_withdraw ::
  "PublicKey \<Rightarrow> BN \<Rightarrow> int \<Rightarrow> AgentAccount \<Rightarrow> DimmError + AgentAccount" where
  "spec_withdraw caller amount agentBalance a =
     (if caller \<noteq> mainWallet a then Inl Unauthorized
      else if agentBalance - amount < MIN_AGENT_BALANCE then Inl InsufficientAgentBalance
      else Inr a)"

text \<open>
  Modelled from the spec: the instruction set of the program is missing.  These are the
  caller-facing operations of section 6 that act on an existing agent, each with the
  caller or the time and the balance it is run with.
\<close>

datatype spec_operation =
    RevokeAgent PublicKey
  | UpdatePermissions PublicKey "AgentPermission list"
  | UpdateLimits PublicKey "BN option" "BN option"
  | ExecuteOperation int ActivityType BN int
  | FundAgent BN
  | WithdrawFromAgent PublicKey BN int

text \<open>
  Modelled from the spec: the instruction dispatch of the program is missing.  Each
  operation runs the handler of its section.
\<close>

fun spec_apply :: "spec_operation \<Rightarrow> AgentAccount \<Rightarrow> DimmError + AgentAccount" where
  "spec_apply (RevokeAgent caller) a = spec_revoke caller a"
| "spec_apply (UpdatePermissions caller ps) a = spec_replacePermissions caller ps a"
| "spec_apply (UpdateLimits caller m l) a = spec_updateLimits caller m l a"
| "spec_apply (ExecuteOperation now t amount bal) a = spec_execute now t amount bal a"
| "spec_apply (FundAgent amount) a = spec_fund amount a"
| "spec_apply (WithdrawFromAgent caller amount bal) a = spec_withdraw caller amount bal a"

text \<open>
  Modelled from the spec: the transaction boundary of the runtime is missing.  Section 7:
  a rejected operation reports its error and leaves the account byte-for-byte unchanged.
\<close>

definition spec_step :: "spec_operation \<Rightarrow> AgentAccount \<Rightarrow> DimmError option \<times> AgentAccount" where
  "spec_step opn a =
     (case spec_apply opn a of Inl e \<Rightarrow> (Some e, a) | Inr a' \<Rightarrow> (None, a'))"

text \<open>
  Modelled from the spec: the runtime is missing.  Section 5: the operations on one
  account are applied one after the other.
\<close>

fun spec_run :: "spec_operation list \<Rightarrow> AgentAccount \<Rightarrow> AgentAccount" where
  "spec_run [] a = a"
| "spec_run (opn # ops) a = spec_run ops (snd (spec_step opn a))"

text \<open>
  Modelled from the spec: the accounts of the program are missing.  Section 3: the
  protocol configuration with its counter, the agent accounts by agent id, and the
  external leaf store.
\<close>

record 's Engine =
  config :: ProtocolConfig
  agents :: "BN \<Rightarrow> AgentAccount option"
  leafStore :: 's

text \<open>
  Modelled from the spec: the handler \<open>create_agent\<close> and the compressed-leaf index are
  missing.  Section 4.1, in the order it lists the steps: the name and the limits are
  validated, creation is rejected with \<open>MaxAgentsReached\<close> once
  \<open>totalAgents \<ge> 10000\<close>, the agent takes \<open>agentId = totalAgents\<close> with zeroed
  counters, a leaf is appended and the counter is incremented.  Section 6: the leaf store
  is opaque and a failed append surfaces as \<open>MaxAgentsReached\<close>; \<open>appendLeaf\<close> is a
  parameter.
\<close>

definition spec_create ::
  "('s \<Rightarrow> (int \<times> 's) option) \<Rightarrow> PublicKey \<Rightarrow> int \<Rightarrow> CreateAgentParams
     \<Rightarrow> 's Engine \<Rightarrow> DimmError + 's Engine" where
  "spec_create appendLeaf owner now params st =
     (if \<not> (1 \<le> length (param_name params) \<and> length (param_name params) \<le> 32)
        then Inl AgentNameTooLong
      else if param_dailyLimit params < param_maxSolPerTransaction params
        then Inl InvalidLimitConfiguration
      else if totalAgents (config st) \<ge> MAX_AGENTS_PER_WALLET then Inl MaxAgentsReached
      else
        (case appendLeaf (leafStore st) of
           None \<Rightarrow> Inl MaxAgentsReached
         | Some (idx, store') \<Rightarrow>
             let aid = totalAgents (config st);
                 agent = \<lparr> mainWallet = owner, agentId = aid, name = param_name params,
                           permissions = param_permissions params,
                           maxSolPerTransaction = param_maxSolPerTransaction params,
                           dailyLimit = param_dailyLimit params,
                           spentToday = 0, lastDailyReset = now, totalSpent = 0,
                           totalTransactions = 0, revoked = False, createdAt = now,
                           lastUsedAt = now, leafIndex = idx, bump = 0 \<rparr>
             in Inr (st\<lparr> config := (config st)\<lparr>totalAgents := aid + 1\<rparr>,
                         agents := (agents st)(aid := Some agent),
                         leafStore := store' \<rparr>)))"

text \<open>
  Modelled from the spec: the transaction boundary of the runtime is missing.  Section
  4.1: all steps of a creation succeed together or none do.
\<close>

definition spec_createAgent ::
  "('s \<Rightarrow> (int \<times> 's) option) \<Rightarrow> PublicKey \<Rightarrow> int \<Rightarrow> CreateAgentParams
     \<Rightarrow> 's Engine \<Rightarrow> DimmError option \<times> 's Engine" where
  "spec_createAgent appendLeaf owner now params st =
     (case spec_create appendLeaf owner now params st of
        Inl e \<Rightarrow> (Some e, st)
      | Inr st' \<Rightarrow> (None, st'))"

section \<open>Sample data\<close>

definition sampleAccount :: AgentAccount where
  "sampleAccount =
     \<lparr> mainWallet = PublicKey [1], agentId = 0, name = ''TradingBot'',
       permissions = [TRANSFER_SOL, SWAP_TOKENS],
       maxSolPerTransaction = 100000000, dailyLimit = 1000000000,
       spentToday = 1000000000, lastDailyReset = 1000,
       totalSpent = 1000000000, totalTransactions = 10, revoked = False,
       createdAt = 1000, lastUsedAt = 5000, leafIndex = 0, bump = 255 \<rparr>"

definition sampleFindPDA :: findProgramAddressSync where
  "sampleFindPDA seeds progId = (PublicKey (concat seeds @ toBuffer progId), 255)"

text \<open>
  A client whose network holds an account at every address and accepts every
  transaction; its world counts the calls made.
\<close>

definition sampleClient :: "nat DimmClient" where
  "sampleClient =
     newDimmClient sampleFindPDA (PublicKey [9]) (\<lambda>a w. (Inr (Some [0]), Suc w))
       (\<lambda>tx w. (Inr ''sig'', Suc w)) (PublicKey [7])"

definition sampleAgent :: Agent where
  "sampleAgent = \<lparr> address = PublicKey [3], data = sampleAccount \<rparr>"

definition sampleConfig :: ProtocolConfig where
  "sampleConfig =
     \<lparr> authority = PublicKey [7], merkleTree = PublicKey [2], totalAgents = 3,
       version = 1, paused = False, config_bump = 254 \<rparr>"

definition listingClient :: "nat DimmClient" where
  "listingClient =
     sampleClient
       \<lparr> getAgentAccount :=
           (\<lambda>a w. (if a = agentAddress sampleClient 1 then None else Some sampleAccount, Suc w)),
         getProtocolConfig := (\<lambda>w. (Some sampleConfig, Suc w)) \<rparr>"

definition sampleEngine :: "nat Engine" where
  "sampleEngine =
     \<lparr> config = \<lparr> authority = PublicKey [1], merkleTree = PublicKey [2],
                  totalAgents = 10000, version = 1, paused = False, config_bump = 254 \<rparr>,
       agents = (\<lambda>aid. None), leafStore = 10000 \<rparr>"

definition sampleParams :: CreateAgentParams where
  "sampleParams =
     \<lparr> param_name = ''TradingBot'', param_permissions = [TRANSFER_SOL],
       param_maxSolPerTransaction = 100000000, param_dailyLimit = 1000000000 \<rparr>"

definition sampleAppendLeaf :: "nat \<Rightarrow> (int \<times> nat) option" where
  "sampleAppendLeaf used = (if used < 16384 then Some (int used, Suc used) else None)"

section \<open>Rounding of JavaScript numbers\<close>

lemma ilog2_nonneg: "0 \<le> ilog2 n"
  by (induction n rule: ilog2.induct) (subst ilog2.simps, simp)

lemma ilog2_bounds:
  "1 \<le> n \<Longrightarrow> 2 ^ nat (ilog2 n) \<le> n \<and> n < 2 * 2 ^ nat (ilog2 n)"
proof (induction n rule: ilog2.induct)
  case (1 n)
  show ?case
  proof (cases "n \<le> 1")
    case True
    with 1(2) have "n = 1" by simp
    then show ?thesis by (subst (1 2) ilog2.simps) simp
  next
    case False
    then have h: "1 \<le> n div 2" by simp
    let ?k = "ilog2 (n div 2)"
    from 1(1) [OF False h]
    have ih: "2 ^ nat ?k \<le> n div 2" "n div 2 < 2 * 2 ^ nat ?k" by simp_all
    have e: "ilog2 n = 1 + ?k"
      using False by (subst ilog2.simps) simp
    have n: "nat (1 + ?k) = Suc (nat ?k)"
      using ilog2_nonneg [of "n div 2"] by simp
    have d: "n = 2 * (n div 2) + n mod 2" "0 \<le> n mod 2" "n mod 2 < 2"
      by simp_all
    show ?thesis
      unfolding e n using ih d by simp linarith
  qed
qed

lemma powi_div: "(2::rat) powi e / 2 powi p = 2 powi (e - p)"
  by (simp add: power_int_diff)

lemma powi_add: "(2::rat) powi a * 2 powi b = 2 powi (a + b)"
  by (simp add: power_int_add)

lemma floor_log2_bounds:
  assumes "0 < a"
  shows "2 powi (floor_log2 a) \<le> a" and "a < 2 powi (floor_log2 a + 1)"
proof -
  have "2 powi (floor_log2 a) \<le> a \<and> a < 2 powi (floor_log2 a + 1)"
  proof (cases "1 \<le> a")
    case True
    let ?n = "\<lfloor>a\<rfloor>"
    let ?k = "ilog2 ?n"
    have n1: "1 \<le> ?n" using True by simp
    note b = ilog2_bounds [OF n1]
    have k0: "0 \<le> ?k" by (rule ilog2_nonneg)
    have p1: "(2::rat) powi ?k = of_int (2 ^ nat ?k)"
      using k0 by (simp add: power_int_nonneg_exp)
    have p2: "(2::rat) powi (?k + 1) = of_int (2 * 2 ^ nat ?k)"
      using k0 by (simp add: power_int_nonneg_exp nat_add_distrib)
    have "(of_int (2 ^ nat ?k) :: rat) \<le> of_int ?n"
      using b by (simp only: of_int_le_iff)
    also have "\<dots> \<le> a" by simp
    finally have l: "2 powi ?k \<le> a" by (simp only: p1)
    have "a < of_int (?n + 1)" using floor_correct [of a] by simp
    also have "\<dots> \<le> (of_int (2 * 2 ^ nat ?k) :: rat)"
      using b by (simp only: of_int_le_iff) simp
    finally have u: "a < 2 powi (?k + 1)" by (simp only: p2)
    from l u show ?thesis using True by (simp add: floor_log2_def)
  next
    case False
    let ?c = "\<lceil>1 / a\<rceil>"
    let ?m = "?c - 1"
    let ?k = "ilog2 ?m"
    from False assms have "1 < 1 / a" by (simp add: field_simps)
    then have "1 < ?c" by (simp add: less_ceiling_iff)
    then have m1: "1 \<le> ?m" by simp
    note b = ilog2_bounds [OF m1]
    have k0: "0 \<le> ?k" by (rule ilog2_nonneg)
    have e: "floor_log2 a = - (?k + 1)"
      using False by (simp add: floor_log2_def)
    have q1: "(2::rat) powi (?k + 1) = of_int (2 * 2 ^ nat ?k)"
      using k0 by (simp add: power_int_nonneg_exp nat_add_distrib)
    have q2: "(2::rat) powi ?k = of_int (2 ^ nat ?k)"
      using k0 by (simp add: power_int_nonneg_exp)
    have p1: "(2::rat) powi (- (?k + 1)) = 1 / of_int (2 * 2 ^ nat ?k)"
      by (simp only: power_int_minus_divide q1)
    have "(2::rat) powi (- ?k) = 1 / of_int (2 ^ nat ?k)"
      by (simp only: power_int_minus_divide q2)
    moreover have "- (?k + 1) + 1 = - ?k" by simp
    ultimately have p2: "(2::rat) powi (- (?k + 1) + 1) = 1 / of_int (2 ^ nat ?k)"
      by (simp only:)
    have "1 / a \<le> of_int ?c" by simp
    also have "\<dots> \<le> (of_int (2 * 2 ^ nat ?k) :: rat)"
      using b by (simp only: of_int_le_iff) simp
    finally have "1 / a \<le> (of_int (2 * 2 ^ nat ?k) :: rat)" .
    moreover have "(0::rat) < of_int (2 * 2 ^ nat ?k)" by simp
    ultimately have l: "1 / of_int (2 * 2 ^ nat ?k) \<le> a"
      using assms by (simp add: field_simps)
    have "2 ^ nat ?k < ?c" using b by simp
    then have "(of_int (2 ^ nat ?k) :: rat) < 1 / a"
      by (simp only: less_ceiling_iff)
    moreover have "(0::rat) < of_int (2 ^ nat ?k)" by simp
    ultimately have u: "a < 1 / of_int (2 ^ nat ?k)"
      using assms by (simp add: field_simps)
    from l u show ?thesis by (simp only: e p1 p2)
  qed
  then show "2 powi (floor_log2 a) \<le> a" and "a < 2 powi (floor_log2 a + 1)"
    by simp_all
qed

lemma floor_log2_mono:
  assumes "0 < a" "a \<le> b"
  shows "floor_log2 a \<le> floor_log2 b"
proof (rule ccontr)
  assume "\<not> floor_log2 a \<le> floor_log2 b"
  then have "floor_log2 b + 1 \<le> floor_log2 a" by simp
  then have "(2::rat) powi (floor_log2 b + 1) \<le> 2 powi (floor_log2 a)"
    by (intro power_int_increasing) simp_all
  also have "\<dots> \<le> a" using assms by (intro floor_log2_bounds) simp
  also have "\<dots> \<le> b" by fact
  also have "\<dots> < 2 powi (floor_log2 b + 1)"
    using assms by (intro floor_log2_bounds) simp
  finally show False by simp
qed

lemma round_half_even_le: "n \<le> of_int k \<Longrightarrow> round_half_even n \<le> k"
proof -
  assume a: "n \<le> of_int k"
  then have f: "\<lfloor>n\<rfloor> \<le> k" by (simp add: floor_le_iff)
  show ?thesis
  proof (cases "\<lfloor>n\<rfloor> = k")
    case True
    with a have "n - of_int \<lfloor>n\<rfloor> \<le> 0" by simp
    then show ?thesis using True by (simp add: round_half_even_def Let_def)
  next
    case False
    with f have "\<lfloor>n\<rfloor> + 1 \<le> k" by simp
    then show ?thesis by (simp add: round_half_even_def Let_def)
  qed
qed

lemma round_half_even_ge: "of_int k \<le> n \<Longrightarrow> k \<le> round_half_even n"
proof -
  assume "of_int k \<le> n"
  then have "k \<le> \<lfloor>n\<rfloor>" by (simp add: le_floor_iff)
  then show ?thesis by (simp add: round_half_even_def Let_def)
qed

lemma round_half_even_mono:
  assumes "n1 \<le> n2"
  shows "round_half_even n1 \<le> round_half_even n2"
proof (cases "\<lfloor>n1\<rfloor> = \<lfloor>n2\<rfloor>")
  case True
  with assms have "n1 - of_int \<lfloor>n1\<rfloor> \<le> n2 - of_int \<lfloor>n2\<rfloor>" by simp
  then show ?thesis using True by (auto simp: round_half_even_def Let_def)
next
  case False
  with assms have "\<lfloor>n1\<rfloor> + 1 \<le> \<lfloor>n2\<rfloor>"
    using floor_mono [OF assms] by simp
  then show ?thesis by (auto simp: round_half_even_def Let_def)
qed

lemma round_binary64_pos:
  assumes "0 < q"
  shows "round_binary64 q =
           of_int (round_half_even (q / 2 powi (max (floor_log2 q) (- 1022) - 52)))
             * 2 powi (max (floor_log2 q) (- 1022) - 52)"
  using assms by (simp add: round_binary64_def Let_def)

lemma round_binary64_nonneg: "0 \<le> q \<Longrightarrow> 0 \<le> round_binary64 q"
proof (cases "q = 0")
  case True
  then show ?thesis by (simp add: round_binary64_def)
next
  case False
  assume "0 \<le> q"
  with False have q: "0 < q" by simp
  let ?p = "max (floor_log2 q) (- 1022) - 52"
  have "(of_int 0 :: rat) \<le> q / 2 powi ?p" using q by simp
  then have "0 \<le> round_half_even (q / 2 powi ?p)" by (rule round_half_even_ge)
  then show ?thesis by (simp add: round_binary64_pos [OF q])
qed

lemma round_binary64_upper:
  assumes q: "0 < q"
  shows "round_binary64 q \<le> 2 powi (max (floor_log2 q) (- 1022) + 1)"
proof -
  let ?E = "max (floor_log2 q) (- 1022)"
  let ?p = "?E - 52"
  have "q < 2 powi (floor_log2 q + 1)" by (rule floor_log2_bounds [OF q])
  also have "\<dots> \<le> 2 powi (?E + 1)" by (intro power_int_increasing) simp_all
  finally have "q \<le> 2 powi (?E + 1)" by simp
  then have "q / 2 powi ?p \<le> 2 powi (?E + 1) / 2 powi ?p"
    by (intro divide_right_mono) simp_all
  also have "\<dots> = 2 powi (?E + 1 - ?p)" by (rule powi_div)
  also have "?E + 1 - ?p = 53" by simp
  also have "(2::rat) powi 53 = of_int (2 ^ 53)" by simp
  finally have "round_half_even (q / 2 powi ?p) \<le> 2 ^ 53" by (rule round_half_even_le)
  then have "(of_int (round_half_even (q / 2 powi ?p)) :: rat) \<le> of_int (2 ^ 53)"
    by (simp only: of_int_le_iff)
  then have "of_int (round_half_even (q / 2 powi ?p)) * 2 powi ?p \<le> of_int (2 ^ 53) * (2::rat) powi ?p"
    by (intro mult_right_mono) simp_all
  also have "(of_int (2 ^ 53) :: rat) = 2 powi 53" by simp
  also have "(2::rat) powi 53 * 2 powi ?p = 2 powi (53 + ?p)" by (rule powi_add)
  also have "53 + ?p = ?E + 1" by simp
  finally show ?thesis by (simp only: round_binary64_pos [OF q])
qed

lemma round_binary64_lower:
  assumes q: "0 < q" and n: "- 1022 \<le> floor_log2 q"
  shows "2 powi (floor_log2 q) \<le> round_binary64 q"
proof -
  let ?e = "floor_log2 q"
  let ?p = "?e - 52"
  have E: "max ?e (- 1022) = ?e" using n by simp
  have "?e - ?p = 52" by simp
  then have "(2::rat) powi (?e - ?p) = 2 powi 52" by (simp only:)
  then have "(of_int (2 ^ 52) :: rat) = 2 powi (?e - ?p)" by simp
  also have "\<dots> = 2 powi ?e / 2 powi ?p" by (rule powi_div [symmetric])
  also have "\<dots> \<le> q / 2 powi ?p"
    using floor_log2_bounds(1) [OF q] by (intro divide_right_mono) simp_all
  finally have "2 ^ 52 \<le> round_half_even (q / 2 powi ?p)" by (rule round_half_even_ge)
  then have "(of_int (2 ^ 52) :: rat) \<le> of_int (round_half_even (q / 2 powi ?p))"
    by (simp only: of_int_le_iff)
  then have "of_int (2 ^ 52) * (2::rat) powi ?p \<le> of_int (round_half_even (q / 2 powi ?p)) * 2 powi ?p"
    by (intro mult_right_mono) simp_all
  moreover have "(of_int (2 ^ 52) :: rat) = 2 powi 52" by simp
  moreover have "(2::rat) powi 52 * 2 powi ?p = 2 powi (52 + ?p)" by (rule powi_add)
  moreover have "52 + ?p = ?e" by simp
  ultimately show ?thesis by (simp only: round_binary64_pos [OF q] E)
qed

lemma round_binary64_mono:
  assumes "0 \<le> q1" "q1 \<le> q2"
  shows "round_binary64 q1 \<le> round_binary64 q2"
proof (cases "q1 = 0")
  case True
  then show ?thesis
    using assms round_binary64_nonneg [of q2] by (simp add: round_binary64_def)
next
  case False
  with assms have q1: "0 < q1" and q2: "0 < q2" by simp_all
  let ?E1 = "max (floor_log2 q1) (- 1022)"
  let ?E2 = "max (floor_log2 q2) (- 1022)"
  have le: "?E1 \<le> ?E2" using floor_log2_mono [OF q1 assms(2)] by simp
  show ?thesis
  proof (cases "?E1 = ?E2")
    case True
    let ?p = "?E2 - 52"
    have "q1 / 2 powi ?p \<le> q2 / 2 powi ?p"
      using assms by (intro divide_right_mono) simp_all
    then have "round_half_even (q1 / 2 powi ?p) \<le> round_half_even (q2 / 2 powi ?p)"
      by (rule round_half_even_mono)
    then have "(of_int (round_half_even (q1 / 2 powi ?p)) :: rat)
                 \<le> of_int (round_half_even (q2 / 2 powi ?p))"
      by (simp only: of_int_le_iff)
    then have "of_int (round_half_even (q1 / 2 powi ?p)) * 2 powi ?p
                 \<le> of_int (round_half_even (q2 / 2 powi ?p)) * (2::rat) powi ?p"
      by (intro mult_right_mono) simp_all
    then show ?thesis
      by (simp only: round_binary64_pos [OF q1] round_binary64_pos [OF q2] True)
  next
    case False
    with le have lt: "?E1 + 1 \<le> ?E2" by simp
    then have e2: "?E2 = floor_log2 q2" and n: "- 1022 \<le> floor_log2 q2" by simp_all
    have "round_binary64 q1 \<le> 2 powi (?E1 + 1)" by (rule round_binary64_upper [OF q1])
    also have "\<dots> \<le> 2 powi ?E2" using lt by (intro power_int_increasing) simp_all
    also have "\<dots> = 2 powi (floor_log2 q2)" by (simp only: e2)
    also have "\<dots> \<le> round_binary64 q2" by (rule round_binary64_lower [OF q2 n])
    finally show ?thesis .
  qed
qed

text \<open>Evaluation of the rounding from the binary exponent and the rounded quotient.\<close>

lemma floor_log2_eq:
  assumes "0 < a" "2 powi e \<le> a" "a < 2 powi (e + 1)"
  shows "floor_log2 a = e"
proof -
  let ?f = "floor_log2 a"
  have lo: "2 powi ?f \<le> a" and hi: "a < 2 powi (?f + 1)"
    using floor_log2_bounds [OF assms(1)] by simp_all
  have "\<not> ?f < e"
  proof
    assume "?f < e"
    then have "(2::rat) powi (?f + 1) \<le> 2 powi e"
      by (intro power_int_increasing) simp_all
    with hi assms(2) show False by simp
  qed
  moreover have "\<not> e < ?f"
  proof
    assume "e < ?f"
    then have "(2::rat) powi (e + 1) \<le> 2 powi ?f"
      by (intro power_int_increasing) simp_all
    with lo assms(3) show False by simp
  qed
  ultimately show ?thesis by simp
qed

lemma round_half_even_down:
  assumes "of_int f \<le> n" "n < of_int f + 1 / 2"
  shows "round_half_even n = f"
proof -
  have "\<lfloor>n\<rfloor> = f"
    using assms by (intro floor_unique) simp_all
  then show ?thesis
    using assms by (simp add: round_half_even_def Let_def)
qed

lemma round_binary64_down:
  assumes "0 < q" "2 powi e \<le> q" "q < 2 powi (e + 1)" "- 1022 \<le> e"
    and "of_int f \<le> q / 2 powi (e - 52)" "q / 2 powi (e - 52) < of_int f + 1 / 2"
  shows "round_binary64 q = of_int f * 2 powi (e - 52)"
proof -
  have "floor_log2 \<bar>q\<bar> = e"
    using floor_log2_eq [of q e] assms by simp
  moreover have "round_half_even (q / 2 powi (e - 52)) = f"
    by (rule round_half_even_down [OF assms(5,6)])
  ultimately show ?thesis
    using assms(1,4) by (simp add: round_binary64_def Let_def max_def)
qed

lemma round_binary64_62500000: "round_binary64 62500000 = 62500000"
proof -
  have "round_binary64 62500000 = of_int 8388608000000000 * 2 powi (25 - 52)"
    by (rule round_binary64_down) simp_all
  also have "\<dots> = 62500000" by simp
  finally show ?thesis .
qed

lemma round_binary64_201: "round_binary64 (201 / 100) = 1131529406376837 / 562949953421312"
proof -
  have "round_binary64 (201 / 100) = of_int 4526117625507348 * 2 powi (1 - 52)"
    by (rule round_binary64_down) simp_all
  also have "\<dots> = 1131529406376837 / 562949953421312" by simp
  finally show ?thesis .
qed

lemma round_binary64_201_product:
  "round_binary64 (1131529406376837 / 562949953421312 * 1000000000) = 8430551039999999 / 4194304"
proof -
  have "round_binary64 (1131529406376837 / 562949953421312 * 1000000000)
          = of_int 8430551039999999 * 2 powi (30 - 52)"
    by (rule round_binary64_down) simp_all
  also have "\<dots> = 8430551039999999 / 4194304" by simp
  finally show ?thesis .
qed

lemma round_binary64_1e16: "round_binary64 10000000000000000 = 10000000000000000"
proof -
  have "round_binary64 10000000000000000 = of_int 5000000000000000 * 2 powi (53 - 52)"
    by (rule round_binary64_down) simp_all
  also have "\<dots> = 10000000000000000" by simp
  finally show ?thesis .
qed

text \<open>
  The conversion of line 59 is monotone on the non-negative numbers, and where it
  succeeds for a number it succeeds for every smaller one.
\<close>

lemma solToLamports_Finite:
  "solToLamports (Finite a) = newBN (js_of_rat (a * 1000000000))"
  by (simp add: solToLamports_def LAMPORTS_PER_SOL_def)

lemma solToLamports_mono:
  assumes "0 \<le> b" "b \<le> a" "solToLamports (Finite a) = Inr la"
  shows "\<exists>lb. solToLamports (Finite b) = Inr lb \<and> lb \<le> la"
proof -
  let ?Ra = "round_binary64 (a * 1000000000)"
  let ?Rb = "round_binary64 (b * 1000000000)"
  have b0: "0 \<le> b * 1000000000" and ba: "b * 1000000000 \<le> a * 1000000000"
    using assms by simp_all
  have rb0: "0 \<le> ?Rb" by (rule round_binary64_nonneg [OF b0])
  have rba: "?Rb \<le> ?Ra" by (rule round_binary64_mono [OF b0 ba])
  have ra: "?Ra < 2 ^ 53 \<and> la = \<lfloor>?Ra\<rfloor>"
    using assms(3) rb0 rba
    by (auto simp: solToLamports_Finite js_of_rat_def newBN_def Let_def split: if_splits)
  then have "?Rb < 2 ^ 53" using rba by simp
  then have "solToLamports (Finite b) = Inr \<lfloor>?Rb\<rfloor>"
    using rb0 by (simp add: solToLamports_Finite js_of_rat_def newBN_def Let_def)
  moreover have "\<lfloor>?Rb\<rfloor> \<le> la" using ra rba by (simp add: floor_mono)
  ultimately show ?thesis by blast
qed

section \<open>Spending checks of the SDK\<close>

lemma canSpend_checks_iff:
  "canSpend_checks d a \<longleftrightarrow> a \<le> maxSolPerTransaction d \<and> spentToday d + a \<le> dailyLimit d"
  by (simp add: canSpend_checks_def Let_def not_less)

lemma canSpend_eq:
  "canSpend d x =
     (case solToLamports x of Inl e \<Rightarrow> Inl e | Inr l \<Rightarrow> Inr (canSpend_checks d l))"
  by (simp add: canSpend_def canSpend_checks_def solToLamports_def LAMPORTS_PER_SOL_def Let_def
        split: sum.splits)

lemma canSpend_limits:
  "canSpend d x =
     (case solToLamports x of
        Inl e \<Rightarrow> Inl e
      | Inr l \<Rightarrow> Inr (l \<le> maxSolPerTransaction d \<and> spentToday d + l \<le> dailyLimit d))"
  by (simp add: canSpend_eq canSpend_checks_iff cong: sum.case_cong)

lemma spec_lazyReset_not_due:
  "now - lastDailyReset d < DAILY_WINDOW_SECONDS \<Longrightarrow> spec_lazyReset now d = d"
  by (simp add: spec_lazyReset_def)

lemma spec_canSpend_not_due:
  "now - lastDailyReset d < 86400 \<Longrightarrow>
     spec_canSpend now d l \<longleftrightarrow> l \<le> maxSolPerTransaction d \<and> spentToday d + l \<le> dailyLimit d"
  by (simp add: spec_canSpend_def spec_lazyReset_def DAILY_WINDOW_SECONDS_def)

lemma getStats_lastDailyReset: "getStats (d\<lparr>lastDailyReset := t\<rparr>) = getStats d"
  by (simp add: getStats_def cong: sum.case_cong)

lemma canSpend_checks_lastDailyReset:
  "canSpend_checks (d\<lparr>lastDailyReset := t\<rparr>) a = canSpend_checks d a"
  by (simp add: canSpend_checks_iff)

lemma canSpend_lastDailyReset: "canSpend (d\<lparr>lastDailyReset := t\<rparr>) x = canSpend d x"
  by (simp add: canSpend_limits cong: sum.case_cong)

lemma getStats_sampleAccount:
  "getStats sampleAccount =
     Inr \<lparr> stats_totalSpent = 1, stats_spentToday = 1, stats_totalTransactions = 10,
           stats_remainingDailyLimit = 0, stats_createdAt = Date 1000000,
           stats_lastUsedAt = Date 5000000 \<rparr>"
  by (simp add: getStats_def lamportsToSol_def toNumber_def formatTimestamp_def newDate_def
        LAMPORTS_PER_SOL_def sampleAccount_def)

text \<open>The conversion of line 59 on three numbers: exact, truncated, and too large.\<close>

lemma solToLamports_sixteenth: "solToLamports (Finite (1 / 16)) = Inr 62500000"
  by (simp add: solToLamports_Finite js_of_rat_def round_binary64_62500000 newBN_def)

lemma solToLamports_zero: "solToLamports (Finite 0) = Inr 0"
  by (simp add: solToLamports_Finite js_of_rat_def round_binary64_def newBN_def)

lemma js_of_rat_201: "js_of_rat (201 / 100) = Finite (1131529406376837 / 562949953421312)"
  by (simp add: js_of_rat_def round_binary64_201)

lemma solToLamports_201:
  "solToLamports (Finite (1131529406376837 / 562949953421312)) = Inr 2009999999"
proof -
  have "js_of_rat (1131529406376837 / 562949953421312 * 1000000000)
          = Finite (8430551039999999 / 4194304)"
    unfolding js_of_rat_def round_binary64_201_product by simp
  moreover have "\<lfloor>8430551039999999 / 4194304 :: rat\<rfloor> = 2009999999"
    by (rule floor_unique) simp_all
  ultimately show ?thesis
    unfolding solToLamports_Finite by (simp add: newBN_def)
qed

lemma solToLamports_truncates: "solToLamports (js_of_rat (201 / 100)) = Inr 2009999999"
  by (simp only: js_of_rat_201 solToLamports_201)

lemma solToLamports_throws:
  "solToLamports (Finite 10000000) = Inl (Error ''Assertion failed'')"
  by (simp add: solToLamports_Finite js_of_rat_def round_binary64_1e16 newBN_def)

lemma solToLamports_NaN: "solToLamports NaN = Inr 0"
  by (simp add: solToLamports_def newBN_def)

text \<open>
  \<open>canSpend(2.01)\<close> is true under a per-transaction limit of 2009999999 lamports: the
  product is just below 2010000000 and is truncated.  \<open>canSpend(1e7)\<close> throws whatever
  the limits are.
\<close>

lemma canSpend_truncated_product:
  "canSpend (sampleAccount\<lparr>maxSolPerTransaction := 2009999999, dailyLimit := 3000000000,
                          spentToday := 0\<rparr>) (js_of_rat (201 / 100)) = Inr True"
  by (simp add: canSpend_limits solToLamports_truncates)

lemma canSpend_throws: "canSpend d (Finite 10000000) = Inl (Error ''Assertion failed'')"
  by (simp add: canSpend_limits solToLamports_throws)

text \<open>
  Claim C1, as the code has it: \<open>canSpend\<close> first builds the lamport amount of line 59,
  the double product \<open>amountSol * 1e9\<close> truncated toward zero, and throws when
  \<open>new BN\<close> refuses the product.  When the amount is built, \<open>canSpend\<close> returns true
  exactly when that amount is at most \<open>maxSolPerTransaction\<close> and the cached
  \<open>spentToday\<close> plus the amount is at most \<open>dailyLimit\<close>.  No reset is applied: the
  method has no clock.  Its answer is the answer of the reset-first rule of the
  specification on that amount whenever no reset is due.
\<close>

theorem C1_canSpend_cached:
  "(canSpend_checks d a \<longleftrightarrow> a \<le> maxSolPerTransaction d \<and> spentToday d + a \<le> dailyLimit d)
   \<and> (now - lastDailyReset d < 86400 \<longrightarrow> canSpend_checks d a = spec_canSpend now d a)
   \<and> canSpend d x =
       (case solToLamports x of
          Inl e \<Rightarrow> Inl e
        | Inr l \<Rightarrow> Inr (l \<le> maxSolPerTransaction d \<and> spentToday d + l \<le> dailyLimit d))
   \<and> (canSpend d x = Inr True \<longleftrightarrow>
        (\<exists>l. solToLamports x = Inr l
              \<and> l \<le> maxSolPerTransaction d \<and> spentToday d + l \<le> dailyLimit d))
   \<and> (now - lastDailyReset d < 86400 \<longrightarrow>
        canSpend d x =
          (case solToLamports x of Inl e \<Rightarrow> Inl e | Inr l \<Rightarrow> Inr (spec_canSpend now d l)))
   \<and> solToLamports x =
       (case js_times x (Finite 1000000000) of
          NaN \<Rightarrow> Inr 0
        | PosInfinity \<Rightarrow> Inl (Error ''Assertion failed'')
        | NegInfinity \<Rightarrow> Inl (Error ''Assertion failed'')
        | Finite r \<Rightarrow>
            if \<bar>r\<bar> < 2 ^ 53 then Inr (if r < 0 then - \<lfloor>- r\<rfloor> else \<lfloor>r\<rfloor>)
            else Inl (Error ''Assertion failed''))"
proof (intro conjI impI)
  show "canSpend_checks d a \<longleftrightarrow> a \<le> maxSolPerTransaction d \<and> spentToday d + a \<le> dailyLimit d"
    by (rule canSpend_checks_iff)
next
  assume "now - lastDailyReset d < 86400"
  then show "canSpend_checks d a = spec_canSpend now d a"
    by (simp add: canSpend_checks_iff spec_canSpend_not_due)
next
  show "canSpend d x =
       (case solToLamports x of
          Inl e \<Rightarrow> Inl e
        | Inr l \<Rightarrow> Inr (l \<le> maxSolPerTransaction d \<and> spentToday d + l \<le> dailyLimit d))"
    by (rule canSpend_limits)
next
  show "canSpend d x = Inr True \<longleftrightarrow>
        (\<exists>l. solToLamports x = Inr l
              \<and> l \<le> maxSolPerTransaction d \<and> spentToday d + l \<le> dailyLimit d)"
    by (auto simp: canSpend_limits split: sum.splits)
next
  assume "now - lastDailyReset d < 86400"
  then show "canSpend d x =
          (case solToLamports x of Inl e \<Rightarrow> Inl e | Inr l \<Rightarrow> Inr (spec_canSpend now d l))"
    by (simp add: canSpend_limits spec_canSpend_not_due cong: sum.case_cong)
next
  show "solToLamports x =
       (case js_times x (Finite 1000000000) of
          NaN \<Rightarrow> Inr 0
        | PosInfinity \<Rightarrow> Inl (Error ''Assertion failed'')
        | NegInfinity \<Rightarrow> Inl (Error ''Assertion failed'')
        | Finite r \<Rightarrow>
            if \<bar>r\<bar> < 2 ^ 53 then Inr (if r < 0 then - \<lfloor>- r\<rfloor> else \<lfloor>r\<rfloor>)
            else Inl (Error ''Assertion failed''))"
    by (simp add: solToLamports_def newBN_def LAMPORTS_PER_SOL_def)
qed

theorem C1_canSpend_cached_witness:
  "87399 - lastDailyReset sampleAccount < 86400
   \<and> canSpend_checks sampleAccount 0 = spec_canSpend 87399 sampleAccount 0
   \<and> canSpend_checks sampleAccount 0
   \<and> canSpend sampleAccount (Finite 0) = Inr True"
proof -
  note T = C1_canSpend_cached [where d = sampleAccount and a = 0 and now = 87399
                                and x = "Finite 0"]
  have h: "87399 - lastDailyReset sampleAccount < 86400"
    by (simp add: sampleAccount_def)
  have l: "0 \<le> maxSolPerTransaction sampleAccount
           \<and> spentToday sampleAccount + 0 \<le> dailyLimit sampleAccount"
    by (simp add: sampleAccount_def)
  have e: "\<exists>l. solToLamports (Finite 0) = Inr l
             \<and> l \<le> maxSolPerTransaction sampleAccount
             \<and> spentToday sampleAccount + l \<le> dailyLimit sampleAccount"
    using l solToLamports_zero by blast
  have a: "canSpend_checks sampleAccount 0 = spec_canSpend 87399 sampleAccount 0"
    by (rule mp [OF conjunct1 [OF conjunct2 [OF T]] h])
  have b: "canSpend_checks sampleAccount 0"
    by (rule iffD2 [OF conjunct1 [OF T] l])
  have c: "canSpend sampleAccount (Finite 0) = Inr True"
    by (rule iffD2 [OF conjunct1 [OF conjunct2 [OF conjunct2 [OF conjunct2 [OF T]]]] e])
  show ?thesis
    by (intro conjI) (rule h a b c)+
qed

text \<open>
  Claim C1 as stated fails: the sample account has spent its whole daily limit and its
  last reset is 86400 seconds old.  For 0.0625 SOL line 59 builds 62500000 lamports
  exactly; the reset-first rule allows them, \<open>canSpend\<close> refuses them.
\<close>

theorem C1_canSpend_reset_counterexample:
  "solToLamports (Finite (1 / 16)) = Inr 62500000
   \<and> spec_canSpend 87400 sampleAccount 62500000
   \<and> canSpend sampleAccount (Finite (1 / 16)) = Inr False
   \<and> \<not> canSpend_checks sampleAccount 62500000"
  by (simp add: canSpend_limits canSpend_checks_iff solToLamports_sixteenth spec_canSpend_def
        spec_lazyReset_def sampleAccount_def DAILY_WINDOW_SECONDS_def)

text \<open>
  Claim C2, as the code has it: \<open>getStats\<close> and \<open>canSpend\<close> never read
  \<open>lastDailyReset\<close> and take no clock, so their results are the same whatever the value
  of \<open>lastDailyReset\<close> is; they never set \<open>spentToday\<close> to 0.  While no reset is due
  (for instance at \<open>T + 86399\<close>) they agree with the reset-first reading.
\<close>

theorem C2_checks_ignore_clock:
  "getStats (d\<lparr>lastDailyReset := t\<rparr>) = getStats d
   \<and> canSpend_checks (d\<lparr>lastDailyReset := t\<rparr>) a = canSpend_checks d a
   \<and> (now - lastDailyReset d < 86400 \<longrightarrow>
        getStats d = spec_getStats now d \<and> canSpend_checks d a = spec_canSpend now d a)
   \<and> canSpend (d\<lparr>lastDailyReset := t\<rparr>) x = canSpend d x
   \<and> (now - lastDailyReset d < 86400 \<longrightarrow>
        canSpend d x =
          (case solToLamports x of Inl e \<Rightarrow> Inl e | Inr l \<Rightarrow> Inr (spec_canSpend now d l)))"
proof (intro conjI impI)
  show "getStats (d\<lparr>lastDailyReset := t\<rparr>) = getStats d"
    by (rule getStats_lastDailyReset)
  show "canSpend_checks (d\<lparr>lastDailyReset := t\<rparr>) a = canSpend_checks d a"
    by (rule canSpend_checks_lastDailyReset)
  show "canSpend (d\<lparr>lastDailyReset := t\<rparr>) x = canSpend d x"
    by (rule canSpend_lastDailyReset)
next
  assume "now - lastDailyReset d < 86400"
  then show "getStats d = spec_getStats now d"
    by (simp add: spec_getStats_def spec_lazyReset_def DAILY_WINDOW_SECONDS_def)
next
  assume "now - lastDailyReset d < 86400"
  then show "canSpend_checks d a = spec_canSpend now d a"
    by (simp add: canSpend_checks_iff spec_canSpend_not_due)
next
  assume "now - lastDailyReset d < 86400"
  then show "canSpend d x =
          (case solToLamports x of Inl e \<Rightarrow> Inl e | Inr l \<Rightarrow> Inr (spec_canSpend now d l))"
    by (simp add: canSpend_limits spec_canSpend_not_due cong: sum.case_cong)
qed

theorem C2_checks_ignore_clock_witness:
  "(1000 + 86399) - lastDailyReset sampleAccount < 86400
   \<and> getStats (sampleAccount\<lparr>lastDailyReset := 0\<rparr>) = getStats sampleAccount
   \<and> getStats sampleAccount = spec_getStats (1000 + 86399) sampleAccount
   \<and> canSpend_checks sampleAccount 1 = spec_canSpend (1000 + 86399) sampleAccount 1
   \<and> canSpend (sampleAccount\<lparr>lastDailyReset := 0\<rparr>) (Finite (1 / 16))
       = canSpend sampleAccount (Finite (1 / 16))"
proof -
  note T = C2_checks_ignore_clock
             [where d = sampleAccount and t = 0 and a = 1 and now = "1000 + 86399"
                and x = "Finite (1 / 16)"]
  have h: "(1000 + 86399) - lastDailyReset sampleAccount < 86400"
    by (simp add: sampleAccount_def)
  note U = mp [OF conjunct1 [OF conjunct2 [OF conjunct2 [OF T]]] h]
  show ?thesis
    by (intro conjI)
       (rule h conjunct1 [OF T] conjunct1 [OF U] conjunct2 [OF U]
             conjunct1 [OF conjunct2 [OF conjunct2 [OF conjunct2 [OF T]]]])+
qed

text \<open>
  Claim C2 as stated fails: with \<open>lastDailyReset = 1000\<close> a reset is due at
  \<open>1000 + 86400 + 1\<close> and the reset rule gives \<open>spentToday = 0\<close> there, but
  \<open>getStats\<close> still reports the cached 1 SOL and \<open>canSpend\<close> still counts it.
\<close>

theorem C2_getStats_no_reset_counterexample:
  "87401 - lastDailyReset sampleAccount \<ge> 86400
   \<and> spentToday (spec_lazyReset 87401 sampleAccount) = 0
   \<and> getStats sampleAccount \<noteq> spec_getStats 87401 sampleAccount
   \<and> canSpend_checks sampleAccount 62500000 \<noteq> spec_canSpend 87401 sampleAccount 62500000
   \<and> canSpend sampleAccount (Finite (1 / 16)) = Inr False
   \<and> spec_canSpend 87401 sampleAccount 62500000"
proof -
  have "87401 - lastDailyReset sampleAccount \<ge> 86400
   \<and> spentToday (spec_lazyReset 87401 sampleAccount) = 0
   \<and> getStats sampleAccount \<noteq> spec_getStats 87401 sampleAccount"
    by (simp add: getStats_def spec_getStats_def lamportsToSol_def toNumber_def
        formatTimestamp_def newDate_def LAMPORTS_PER_SOL_def sampleAccount_def
        spec_lazyReset_def DAILY_WINDOW_SECONDS_def)
  moreover have "canSpend_checks sampleAccount 62500000 \<noteq> spec_canSpend 87401 sampleAccount 62500000
   \<and> canSpend sampleAccount (Finite (1 / 16)) = Inr False
   \<and> spec_canSpend 87401 sampleAccount 62500000"
    by (simp add: canSpend_limits canSpend_checks_iff solToLamports_sixteenth spec_canSpend_def
        spec_lazyReset_def sampleAccount_def DAILY_WINDOW_SECONDS_def)
  ultimately show ?thesis by simp
qed

text \<open>
  Claim C8: the result of \<open>canSpend\<close> does not depend on the \<open>revoked\<close> flag: two
  accounts that differ only in that field get the same answer, so a revoked agent whose
  limits permit the amount still gets \<open>True\<close>.
\<close>

theorem C8_canSpend_ignores_revoked:
  "canSpend_checks (d\<lparr>revoked := r1\<rparr>) a = canSpend_checks (d\<lparr>revoked := r2\<rparr>) a
   \<and> (a \<le> maxSolPerTransaction d \<and> spentToday d + a \<le> dailyLimit d
        \<longrightarrow> canSpend_checks (d\<lparr>revoked := True\<rparr>) a)
   \<and> canSpend (d\<lparr>revoked := r1\<rparr>) x = canSpend (d\<lparr>revoked := r2\<rparr>) x
   \<and> (solToLamports x = Inr a
        \<and> a \<le> maxSolPerTransaction d \<and> spentToday d + a \<le> dailyLimit d
        \<longrightarrow> canSpend (d\<lparr>revoked := True\<rparr>) x = Inr True)"
  by (simp add: canSpend_limits canSpend_checks_iff cong: sum.case_cong)

theorem C8_canSpend_ignores_revoked_witness:
  "(0 \<le> maxSolPerTransaction sampleAccount
      \<and> spentToday sampleAccount + 0 \<le> dailyLimit sampleAccount)
   \<and> revoked (sampleAccount\<lparr>revoked := True\<rparr>)
   \<and> canSpend_checks (sampleAccount\<lparr>revoked := True\<rparr>) 0
   \<and> canSpend (sampleAccount\<lparr>revoked := True\<rparr>) (Finite 0) = Inr True"
proof -
  note T = C8_canSpend_ignores_revoked
             [where d = sampleAccount and ?r1.0 = True and a = 0 and ?r2.0 = False
                and x = "Finite 0"]
  have h: "0 \<le> maxSolPerTransaction sampleAccount
           \<and> spentToday sampleAccount + 0 \<le> dailyLimit sampleAccount"
    by (simp add: sampleAccount_def)
  have g: "solToLamports (Finite 0) = Inr 0
           \<and> 0 \<le> maxSolPerTransaction sampleAccount
           \<and> spentToday sampleAccount + 0 \<le> dailyLimit sampleAccount"
    using h solToLamports_zero by simp
  have r: "revoked (sampleAccount\<lparr>revoked := True\<rparr>)"
    by simp
  show ?thesis
    by (intro conjI)
       (rule conjunct1 [OF h] conjunct2 [OF h] r
             mp [OF conjunct1 [OF conjunct2 [OF T]] h]
             mp [OF conjunct2 [OF conjunct2 [OF conjunct2 [OF T]]] g])+
qed

text \<open>
  Claim C10: \<open>canSpend\<close> is antitone in the amount: when it accepts an amount \<open>a\<close> it
  accepts every amount \<open>b\<close> with \<open>0 \<le> b \<le> a\<close>.  This holds of the two checks on
  lamport amounts and of the whole method on numbers.
\<close>

theorem C10_canSpend_antitone:
  "(0 \<le> b \<and> b \<le> a \<and> canSpend_checks d a \<longrightarrow> canSpend_checks d b)
   \<and> (js_le (Finite 0) y \<and> js_le y x \<and> canSpend d x = Inr True
        \<longrightarrow> canSpend d y = Inr True)"
proof (intro conjI impI)
  assume "0 \<le> b \<and> b \<le> a \<and> canSpend_checks d a"
  then show "canSpend_checks d b"
    by (simp add: canSpend_checks_iff)
next
  assume h: "js_le (Finite 0) y \<and> js_le y x \<and> canSpend d x = Inr True"
  have inf: "canSpend d PosInfinity \<noteq> Inr True"
    by (simp add: canSpend_limits solToLamports_def newBN_def LAMPORTS_PER_SOL_def)
  with h have xi: "x \<noteq> PosInfinity"
    by auto
  from h xi obtain p where x: "x = Finite p"
    by (cases x; cases y) simp_all
  from h x obtain q where y: "y = Finite q" and q0: "0 \<le> q" and qp: "q \<le> p"
    by (cases y) simp_all
  from h x obtain lp where lp: "solToLamports (Finite p) = Inr lp"
    and lim: "lp \<le> maxSolPerTransaction d" "spentToday d + lp \<le> dailyLimit d"
    by (auto simp: canSpend_limits split: sum.splits)
  from solToLamports_mono [OF q0 qp lp] obtain lq where
    lq: "solToLamports (Finite q) = Inr lq" and le: "lq \<le> lp"
    by blast
  show "canSpend d y = Inr True"
    using lq le lim by (simp add: y canSpend_limits)
qed

theorem C10_canSpend_antitone_witness:
  "((0::int) \<le> 50000000 \<and> (50000000::int) \<le> 100000000
      \<and> canSpend_checks (sampleAccount\<lparr>spentToday := 0\<rparr>) 100000000)
   \<and> canSpend_checks (sampleAccount\<lparr>spentToday := 0\<rparr>) 50000000
   \<and> (js_le (Finite 0) (Finite 0) \<and> js_le (Finite 0) (Finite (1 / 16))
        \<and> canSpend (sampleAccount\<lparr>spentToday := 0\<rparr>) (Finite (1 / 16)) = Inr True)
   \<and> canSpend (sampleAccount\<lparr>spentToday := 0\<rparr>) (Finite 0) = Inr True"
proof -
  note T = C10_canSpend_antitone
             [where b = 50000000 and a = 100000000 and d = "sampleAccount\<lparr>spentToday := 0\<rparr>"
                and y = "Finite 0" and x = "Finite (1 / 16)"]
  have big: "(0::int) \<le> 50000000 \<and> (50000000::int) \<le> 100000000
      \<and> canSpend_checks (sampleAccount\<lparr>spentToday := 0\<rparr>) 100000000"
    by (simp add: canSpend_checks_iff sampleAccount_def)
  have num: "js_le (Finite 0) (Finite 0) \<and> js_le (Finite 0) (Finite (1 / 16))
        \<and> canSpend (sampleAccount\<lparr>spentToday := 0\<rparr>) (Finite (1 / 16)) = Inr True"
    by (simp add: canSpend_limits solToLamports_sixteenth sampleAccount_def)
  show ?thesis
    by (rule conjI [OF big conjI [OF mp [OF conjunct1 [OF T] big]
                                    conjI [OF num mp [OF conjunct2 [OF T] num]]]])
qed

section \<open>Name validation\<close>

lemma validateAgentName_iff:
  "validateAgentName nm \<longleftrightarrow> 1 \<le> length nm \<and> length nm \<le> 32"
  by (simp add: validateAgentName_def Suc_le_eq)

lemma getAgentAccountPDA_Inl:
  "getAgentAccountPDA f wl aid p = Inl e \<Longrightarrow> e = RangeError ''ERR_OUT_OF_RANGE''"
  by (auto simp: getAgentAccountPDA_def writeBigUInt64LE_def split: if_splits)

lemma createAgent_invalid_name:
  "\<not> validateAgentName (param_name params) \<Longrightarrow>
     createAgent c params w = (Inl (Error ''Invalid agent name''), w)"
  by (simp add: createAgent_def)

lemma createAgent_valid_name:
  "validateAgentName (param_name params) \<Longrightarrow>
     fst (createAgent c params w) \<noteq> Inl (Error ''Invalid agent name'')"
  by (auto simp: createAgent_def Let_def dest: getAgentAccountPDA_Inl
        split: prod.splits sum.splits option.splits)

text \<open>
  Claim C5: \<open>validateAgentName\<close> accepts exactly the names of length 1 to 32, and
  \<open>createAgent\<close> rejects with its name-validation error \<open>Invalid agent name\<close> exactly
  when the length of the name is 0 or greater than 32.
\<close>

theorem C5_name_validation:
  "(validateAgentName nm \<longleftrightarrow> 1 \<le> length nm \<and> length nm \<le> 32)
   \<and> (fst (createAgent c params w) = Inl (Error ''Invalid agent name'')
        \<longleftrightarrow> length (param_name params) = 0 \<or> length (param_name params) > 32)"
proof (intro conjI)
  show "validateAgentName nm \<longleftrightarrow> 1 \<le> length nm \<and> length nm \<le> 32"
    by (rule validateAgentName_iff)
  have "fst (createAgent c params w) = Inl (Error ''Invalid agent name'')
          \<longleftrightarrow> \<not> validateAgentName (param_name params)"
    using createAgent_invalid_name [of params c w] createAgent_valid_name [of params c w]
    by auto
  then show "fst (createAgent c params w) = Inl (Error ''Invalid agent name'')
        \<longleftrightarrow> length (param_name params) = 0 \<or> length (param_name params) > 32"
    by (auto simp: validateAgentName_def)
qed

theorem C5_name_validation_witness:
  "length (param_name (sampleParams\<lparr>param_name := []\<rparr>)) = 0
   \<and> fst (createAgent sampleClient (sampleParams\<lparr>param_name := []\<rparr>) 0)
       = Inl (Error ''Invalid agent name'')
   \<and> validateAgentName ''TradingBot''"
proof -
  have h: "length (param_name (sampleParams\<lparr>param_name := []\<rparr>)) = 0
           \<or> length (param_name (sampleParams\<lparr>param_name := []\<rparr>)) > 32"
    by simp
  have l: "1 \<le> length ''TradingBot'' \<and> length ''TradingBot'' \<le> 32"
    by simp
  have e: "length (param_name (sampleParams\<lparr>param_name := []\<rparr>)) = 0"
    by simp
  show ?thesis
    by (rule conjI [OF e conjI [OF iffD2 [OF conjunct2 [OF C5_name_validation] h]
          iffD2 [OF conjunct1 [OF C5_name_validation] l]]])
qed

section \<open>Address derivation\<close>

lemma length_le_bytes: "length (le_bytes k v) = k"
  by (induction k arbitrary: v) auto

lemma le_bytes_byte: "b \<in> set (le_bytes k v) \<Longrightarrow> b < 256"
  by (induction k arbitrary: v) auto

lemma le_value_le_bytes: "le_value (le_bytes k v) = v mod 256 ^ k"
proof (induction k arbitrary: v)
  case 0
  then show ?case by simp
next
  case (Suc k)
  have "v mod 256 + 256 * (v div 256 mod 256 ^ k) = v mod (256 * 256 ^ k)"
    by (simp add: mod_mult2_eq)
  with Suc show ?case by simp
qed

lemma writeBigUInt64LE_ok:
  assumes "0 \<le> v" "v < 2 ^ 64"
  shows "writeBigUInt64LE v = Inr (le_bytes 8 (nat v))"
    and "int (le_value (le_bytes 8 (nat v))) = v"
proof -
  show "writeBigUInt64LE v = Inr (le_bytes 8 (nat v))"
    using assms by (simp add: writeBigUInt64LE_def)
  have "nat v < 256 ^ 8" using assms by (simp add: nat_less_iff)
  then have "le_value (le_bytes 8 (nat v)) = nat v"
    by (simp add: le_value_le_bytes)
  then show "int (le_value (le_bytes 8 (nat v))) = v"
    using assms by simp
qed


lemma le_bytes_258: "le_bytes 8 258 = [2, 1, 0, 0, 0, 0, 0, 0]"
  by code_simp

text \<open>
  Claim C6: the three derivations are functions of their arguments.  The protocol
  configuration address comes from the seeds \<open>dimm_protocol\<close> and the owner; the agent
  account address from \<open>dimm_agent\<close>, the owner and the agent id as exactly 8 bytes,
  least significant first; the activity address from \<open>dimm_activity\<close>, the agent and
  the transaction count encoded the same way.  The ids are 64-bit unsigned values.
\<close>

theorem C6_address_derivation:
  "getProtocolConfigPDA f owner p = f [utf8 ''dimm_protocol'', toBuffer owner] p
   \<and> (0 \<le> aid \<and> aid < 2 ^ 64 \<longrightarrow>
        (\<exists>buf. getAgentAccountPDA f owner aid p
                  = Inr (f [utf8 ''dimm_agent'', toBuffer owner, buf] p)
               \<and> length buf = 8 \<and> int (le_value buf) = aid \<and> (\<forall>b \<in> set buf. b < 256)))
   \<and> (0 \<le> cnt \<and> cnt < 2 ^ 64 \<longrightarrow>
        (\<exists>buf. getActivityPDA f agent cnt p
                  = Inr (f [utf8 ''dimm_activity'', toBuffer agent, buf] p)
               \<and> length buf = 8 \<and> int (le_value buf) = cnt \<and> (\<forall>b \<in> set buf. b < 256)))"
proof (intro conjI impI)
  show "getProtocolConfigPDA f owner p = f [utf8 ''dimm_protocol'', toBuffer owner] p"
    by (simp add: getProtocolConfigPDA_def PROTOCOL_SEED_def)
next
  assume r: "0 \<le> aid \<and> aid < 2 ^ 64"
  then have "getAgentAccountPDA f owner aid p
               = Inr (f [utf8 ''dimm_agent'', toBuffer owner, le_bytes 8 (nat aid)] p)"
    by (simp add: getAgentAccountPDA_def writeBigUInt64LE_ok(1) AGENT_SEED_def)
  moreover have "int (le_value (le_bytes 8 (nat aid))) = aid"
    using r by (simp add: writeBigUInt64LE_ok(2))
  ultimately show "\<exists>buf. getAgentAccountPDA f owner aid p
                  = Inr (f [utf8 ''dimm_agent'', toBuffer owner, buf] p)
               \<and> length buf = 8 \<and> int (le_value buf) = aid \<and> (\<forall>b \<in> set buf. b < 256)"
    using length_le_bytes [of 8 "nat aid"] le_bytes_byte [of _ 8 "nat aid"] by blast
next
  assume r: "0 \<le> cnt \<and> cnt < 2 ^ 64"
  then have "getActivityPDA f agent cnt p
               = Inr (f [utf8 ''dimm_activity'', toBuffer agent, le_bytes 8 (nat cnt)] p)"
    by (simp add: getActivityPDA_def writeBigUInt64LE_ok(1) ACTIVITY_SEED_def)
  moreover have "int (le_value (le_bytes 8 (nat cnt))) = cnt"
    using r by (simp add: writeBigUInt64LE_ok(2))
  ultimately show "\<exists>buf. getActivityPDA f agent cnt p
                  = Inr (f [utf8 ''dimm_activity'', toBuffer agent, buf] p)
               \<and> length buf = 8 \<and> int (le_value buf) = cnt \<and> (\<forall>b \<in> set buf. b < 256)"
    using length_le_bytes [of 8 "nat cnt"] le_bytes_byte [of _ 8 "nat cnt"] by blast
qed

theorem C6_address_derivation_witness:
  "((0::int) \<le> 258 \<and> (258::int) < 2 ^ 64)
   \<and> (\<exists>buf. getAgentAccountPDA sampleFindPDA (PublicKey [7]) 258 (PublicKey [9])
                  = Inr (sampleFindPDA [utf8 ''dimm_agent'', toBuffer (PublicKey [7]), buf]
                           (PublicKey [9]))
               \<and> length buf = 8 \<and> int (le_value buf) = 258 \<and> (\<forall>b \<in> set buf. b < 256))"
proof -
  have h: "(0::int) \<le> 258 \<and> (258::int) < 2 ^ 64" by simp
  show ?thesis
    by (rule conjI [OF h mp [OF conjunct1 [OF conjunct2 [OF C6_address_derivation]] h]])
qed

lemma getAgentAccountPDA_258:
  "getAgentAccountPDA sampleFindPDA (PublicKey [7]) 258 (PublicKey [9])
     = Inr (PublicKey (utf8 ''dimm_agent'' @ [7] @ [2, 1, 0, 0, 0, 0, 0, 0] @ [9]), 255)"
  by (simp add: getAgentAccountPDA_def writeBigUInt64LE_def le_bytes_258 sampleFindPDA_def
        AGENT_SEED_def)

lemma getAgentAccountPDA_out_of_range:
  "getAgentAccountPDA f owner (- 1) p = Inl (RangeError ''ERR_OUT_OF_RANGE'')"
  "getAgentAccountPDA f owner (2 ^ 64) p = Inl (RangeError ''ERR_OUT_OF_RANGE'')"
  by (simp_all add: getAgentAccountPDA_def writeBigUInt64LE_def)

section \<open>Reloading an agent\<close>

lemma DimmClient_getAgentAccount_None:
  "fst (DimmClient_getAgentAccount getInfo addr w) = None"
  by (simp add: DimmClient_getAgentAccount_def split: prod.splits sum.splits option.splits)

text \<open>
  Claim C9: \<open>Agent.reload\<close> leaves the agent as it is when the fetch yields nothing,
  and otherwise replaces \<open>data\<close> by the fetched account; so after a reload \<open>data\<close> is
  the previous value or the freshly fetched account, and the address is unchanged.
\<close>

theorem C9_reload_keeps_or_replaces:
  "(fst (getAgentAccount c (address ag) w) = None \<longrightarrow> fst (reload c ag w) = ag)
   \<and> (\<forall>acc. fst (getAgentAccount c (address ag) w) = Some acc \<longrightarrow>
              fst (reload c ag w) = ag\<lparr>data := acc\<rparr>)
   \<and> (data (fst (reload c ag w)) = data ag
        \<or> Some (data (fst (reload c ag w))) = fst (getAgentAccount c (address ag) w))
   \<and> address (fst (reload c ag w)) = address ag
   \<and> snd (reload c ag w) = snd (getAgentAccount c (address ag) w)"
  by (simp add: reload_def split: prod.splits option.splits)

theorem C9_reload_keeps_or_replaces_witness:
  "fst (getAgentAccount sampleClient (address sampleAgent) 0) = None
   \<and> fst (reload sampleClient sampleAgent 0) = sampleAgent
   \<and> fst (getAgentAccount (sampleClient\<lparr>getAgentAccount := \<lambda>a w. (Some sampleAccount, w)\<rparr>)
            (address sampleAgent) 0) = Some sampleAccount
   \<and> fst (reload (sampleClient\<lparr>getAgentAccount := \<lambda>a w. (Some sampleAccount, w)\<rparr>)
            sampleAgent 0) = sampleAgent\<lparr>data := sampleAccount\<rparr>"
proof -
  have n: "fst (getAgentAccount sampleClient (address sampleAgent) 0) = None"
    by (simp add: sampleClient_def newDimmClient_def DimmClient_getAgentAccount_None)
  have s: "fst (getAgentAccount (sampleClient\<lparr>getAgentAccount := \<lambda>a w. (Some sampleAccount, w)\<rparr>)
            (address sampleAgent) 0) = Some sampleAccount"
    by simp
  have a: "fst (reload sampleClient sampleAgent 0) = sampleAgent"
    by (rule mp [OF conjunct1 [OF C9_reload_keeps_or_replaces] n])
  have b: "fst (reload (sampleClient\<lparr>getAgentAccount := \<lambda>a w. (Some sampleAccount, w)\<rparr>)
            sampleAgent 0) = sampleAgent\<lparr>data := sampleAccount\<rparr>"
    by (rule mp [OF spec [OF conjunct1 [OF conjunct2 [OF C9_reload_keeps_or_replaces]]] s])
  show ?thesis
    by (intro conjI) (rule n a s b)+
qed

text \<open>With the class's own \<open>getAgentAccount\<close> a reload never changes the agent.\<close>

lemma reload_newDimmClient:
  "fst (reload (newDimmClient findPDA progId getInfo send wallet) ag w) = ag"
  by (simp add: reload_def newDimmClient_def DimmClient_getAgentAccount_def
        split: prod.splits sum.splits option.splits)

section \<open>Listing the agents\<close>

lemma toNumber_Inr: "toNumber cnt = Inr n \<Longrightarrow> n = cnt \<and> \<bar>cnt\<bar> < 2 ^ 53"
  by (auto simp: toNumber_def split: if_splits)

lemma getAgent_in_range:
  assumes "0 \<le> i" "i < 2 ^ 64"
  shows "getAgent c i w =
           (case getAgentAccount c (agentAddress c i) w of
              (None, w') \<Rightarrow> (Inr None, w')
            | (Some account, w') \<Rightarrow>
                (Inr (Some \<lparr> address = agentAddress c i, data = account \<rparr>), w'))"
  using assms
  by (auto simp: getAgent_def getAgentAccountPDA_def writeBigUInt64LE_def agentAddress_def
        split: prod.splits option.splits)

lemma listAgents_loop_eq:
  assumes n: "toNumber cnt = Inr n"
  shows "0 \<le> i \<Longrightarrow>
         listAgents_loop c cnt i acc w =
           (case lookupAgents c [i..n - 1] w of (found, w') \<Rightarrow> (Inr (acc @ found), w'))"
proof (induction "nat (n - i)" arbitrary: i acc w)
  case 0
  then have "\<not> i < n" by simp
  then show ?case
    using n by (subst listAgents_loop.simps) simp
next
  case (Suc k)
  then have lt: "i < n" and k: "k = nat (n - (i + 1))" and nn: "0 \<le> i + 1"
    by simp_all
  from lt have "i < 2 ^ 64"
    using toNumber_Inr [OF n] by (auto simp: abs_less_iff)
  note ga = getAgent_in_range [OF \<open>0 \<le> i\<close> this]
  have up: "[i..n - 1] = i # [i + 1..n - 1]"
    using lt by (simp add: upto_rec1)
  show ?case
    using n lt Suc.hyps(1) [OF k nn]
    by (subst listAgents_loop.simps)
       (simp add: ga up split: prod.splits option.splits)
qed

lemma listAgents_as_lookups:
  assumes "getProtocolConfig c w = (Some cfg, w1)" "\<bar>totalAgents cfg\<bar> < 2 ^ 53"
  shows "listAgents c w =
          (case lookupAgents c [0..totalAgents cfg - 1] w1 of
             (found, w2) \<Rightarrow> (Inr found, w2))"
proof -
  have "toNumber (totalAgents cfg) = Inr (totalAgents cfg)"
    using assms by (simp add: toNumber_def)
  from listAgents_loop_eq [OF this, of 0 c "[]" w1] assms
  show ?thesis
    by (simp add: listAgents_def)
qed

text \<open>
  Claim C7: when the protocol configuration is absent \<open>listAgents\<close> returns the empty
  list.  Otherwise it makes one lookup per agent id from 0 to \<open>totalAgents - 1\<close>, in
  increasing order, and returns exactly the agents whose lookup succeeds, in that order.
  \<open>totalAgents\<close> is a counter that \<open>toNumber\<close> can read (below \<open>2^53\<close>).
\<close>

theorem C7_listAgents:
  "(getProtocolConfig c w = (None, w1) \<longrightarrow> listAgents c w = (Inr [], w1))
   \<and> (getProtocolConfig c w = (Some cfg, w1) \<and> \<bar>totalAgents cfg\<bar> < 2 ^ 53 \<longrightarrow>
        listAgents c w =
          (case lookupAgents c [0..totalAgents cfg - 1] w1 of
             (found, w2) \<Rightarrow> (Inr found, w2)))"
proof (intro conjI impI)
  assume "getProtocolConfig c w = (None, w1)"
  then show "listAgents c w = (Inr [], w1)"
    by (simp add: listAgents_def)
next
  assume "getProtocolConfig c w = (Some cfg, w1) \<and> \<bar>totalAgents cfg\<bar> < 2 ^ 53"
  then show "listAgents c w =
          (case lookupAgents c [0..totalAgents cfg - 1] w1 of
             (found, w2) \<Rightarrow> (Inr found, w2))"
    by (simp add: listAgents_as_lookups)
qed

theorem C7_listAgents_witness:
  "(getProtocolConfig listingClient 0 = (Some sampleConfig, 1)
      \<and> \<bar>totalAgents sampleConfig\<bar> < 2 ^ 53)
   \<and> listAgents listingClient 0 =
          (case lookupAgents listingClient [0..totalAgents sampleConfig - 1] 1 of
             (found, w2) \<Rightarrow> (Inr found, w2))
   \<and> getProtocolConfig sampleClient 0 = (None, 1)
   \<and> listAgents sampleClient 0 = (Inr [], 1)"
proof -
  have h: "getProtocolConfig listingClient 0 = (Some sampleConfig, 1)
      \<and> \<bar>totalAgents sampleConfig\<bar> < 2 ^ 53"
    by (simp add: listingClient_def sampleConfig_def)
  have n: "getProtocolConfig sampleClient 0 = (None, 1)"
    by (simp add: sampleClient_def newDimmClient_def DimmClient_getProtocolConfig_def
          split: prod.splits)
  show ?thesis
    by (rule conjI [OF h conjI [OF mp [OF conjunct2 [OF C7_listAgents] h]
          conjI [OF n mp [OF conjunct1 [OF C7_listAgents] n]]]])
qed

lemma le_bytes_small:
  "le_bytes 8 0 = [0, 0, 0, 0, 0, 0, 0, 0]"
  "le_bytes 8 1 = [1, 0, 0, 0, 0, 0, 0, 0]"
  "le_bytes 8 2 = [2, 0, 0, 0, 0, 0, 0, 0]"
  "le_bytes 8 (Suc 0) = [1, 0, 0, 0, 0, 0, 0, 0]"
  by code_simp+

lemma agentAddress_listingClient:
  "agentAddress listingClient i = PublicKey (AGENT_SEED @ [7] @ le_bytes 8 (nat i) @ [9])"
  "agentAddress sampleClient i = PublicKey (AGENT_SEED @ [7] @ le_bytes 8 (nat i) @ [9])"
  by (simp_all add: agentAddress_def listingClient_def sampleClient_def newDimmClient_def
        sampleFindPDA_def)

lemma listAgents_listingClient:
  "listAgents listingClient 0 =
     (Inr [\<lparr> address = agentAddress listingClient 0, data = sampleAccount \<rparr>,
           \<lparr> address = agentAddress listingClient 2, data = sampleAccount \<rparr>], 4)"
proof -
  have g: "getAgentAccount listingClient =
             (\<lambda>a w. (if a = agentAddress sampleClient 1 then None else Some sampleAccount, Suc w))"
    by (simp add: listingClient_def)
  have u: "[0..totalAgents sampleConfig - 1] = [0, 1, 2]"
    by (simp add: sampleConfig_def upto_rec1)
  have l: "lookupAgents listingClient [0, 1, 2] 1 =
          ([\<lparr> address = agentAddress listingClient 0, data = sampleAccount \<rparr>,
            \<lparr> address = agentAddress listingClient 2, data = sampleAccount \<rparr>], 4)"
    by (simp add: g agentAddress_listingClient le_bytes_small)
  have "listAgents listingClient 0 =
          (case lookupAgents listingClient [0..totalAgents sampleConfig - 1] 1 of
             (found, w2) \<Rightarrow> (Inr found, w2))"
    by (rule listAgents_as_lookups) (simp_all add: listingClient_def sampleConfig_def)
  then show ?thesis
    by (simp only: u l prod.case)
qed

text \<open>
  When every fetch reads the same snapshot \<open>store\<close>, the lookups are a filter over the
  ids.
\<close>

lemma lookupAgents_snapshot:
  assumes "\<And>a w. getAgentAccount c a w = (store a, w)"
  shows "lookupAgents c aids w =
           (List.map_filter
              (\<lambda>aid. map_option (\<lambda>account. \<lparr> address = agentAddress c aid, data = account \<rparr>)
                       (store (agentAddress c aid))) aids, w)"
  by (induction aids) (auto simp: assms List.map_filter_def split: option.splits)

lemma listAgents_newDimmClient:
  "fst (listAgents (newDimmClient findPDA progId getInfo send wallet) w) = Inr []"
  by (simp add: listAgents_def newDimmClient_def DimmClient_getProtocolConfig_def
        split: prod.splits sum.splits option.splits)

lemma listAgents_too_many:
  "getProtocolConfig c w = (Some cfg, w1) \<Longrightarrow> 2 ^ 53 \<le> \<bar>totalAgents cfg\<bar> \<Longrightarrow>
     listAgents c w = (Inl (Error ''Number can only safely store up to 53 bits''), w1)"
  by (subst listAgents_def, simp, subst listAgents_loop.simps) (simp add: toNumber_def)

section \<open>Revocation in the engine\<close>

lemma spec_apply_keeps_revoked:
  "revoked a \<Longrightarrow> spec_apply opn a = Inr a' \<Longrightarrow> revoked a'"
  by (cases opn)
     (auto simp: spec_revoke_def spec_replacePermissions_def spec_updateLimits_def
        spec_execute_def spec_fund_def spec_withdraw_def Let_def split: if_splits)

lemma spec_step_keeps_revoked: "revoked a \<Longrightarrow> revoked (snd (spec_step opn a))"
  by (auto simp: spec_step_def split: sum.splits dest: spec_apply_keeps_revoked)

lemma spec_run_keeps_revoked: "revoked a \<Longrightarrow> revoked (spec_run ops a)"
  by (induction ops arbitrary: a) (auto intro: spec_step_keeps_revoked)

lemma spec_step_failure_unchanged: "fst (spec_step opn a) = Some e \<Longrightarrow> snd (spec_step opn a) = a"
  by (auto simp: spec_step_def split: sum.splits)

text \<open>
  Claim C3: the first revoke by the owner sets \<open>revoked\<close>; revoking again fails with
  the already-revoked error \<open>AgentRevoked\<close> and leaves the account exactly as the first
  revoke left it; no sequence of operations clears \<open>revoked\<close> afterwards.
\<close>

theorem C3_second_revoke_rejected:
  "(\<not> revoked a \<longrightarrow>
      spec_step (RevokeAgent (mainWallet a)) a = (None, a\<lparr>revoked := True\<rparr>))
   \<and> spec_step (RevokeAgent (mainWallet a)) (a\<lparr>revoked := True\<rparr>)
       = (Some AgentRevoked, a\<lparr>revoked := True\<rparr>)
   \<and> revoked (spec_run ops (a\<lparr>revoked := True\<rparr>))"
proof (intro conjI impI)
  assume "\<not> revoked a"
  then show "spec_step (RevokeAgent (mainWallet a)) a = (None, a\<lparr>revoked := True\<rparr>)"
    by (simp add: spec_step_def spec_revoke_def)
next
  show "spec_step (RevokeAgent (mainWallet a)) (a\<lparr>revoked := True\<rparr>)
          = (Some AgentRevoked, a\<lparr>revoked := True\<rparr>)"
    by (simp add: spec_step_def spec_revoke_def)
next
  show "revoked (spec_run ops (a\<lparr>revoked := True\<rparr>))"
    by (rule spec_run_keeps_revoked) simp
qed

theorem C3_second_revoke_rejected_witness:
  "\<not> revoked sampleAccount
   \<and> spec_step (RevokeAgent (mainWallet sampleAccount)) sampleAccount
       = (None, sampleAccount\<lparr>revoked := True\<rparr>)"
proof -
  have h: "\<not> revoked sampleAccount" by (simp add: sampleAccount_def)
  show ?thesis
    by (rule conjI [OF h mp [OF conjunct1 [OF C3_second_revoke_rejected] h]])
qed

text \<open>
  The SDK side of a revoke: \<open>Agent.revoke\<close> leaves the agent object as it is, and a
  transaction the network rejects is reported as a failure with the message of the error.
\<close>

lemma revoke_keeps_agent: "snd (fst (revoke c ag w)) = ag"
  by (simp add: revoke_def split: prod.splits)

lemma revokeAgent_reports_failure:
  "fst (sendAndConfirmTransaction c [] w) = Inl e \<Longrightarrow>
     success (fst (revokeAgent c a w)) = False
     \<and> error (fst (revokeAgent c a w)) = Some (message e)"
  by (auto simp: revokeAgent_def split: prod.splits sum.splits)

section \<open>The agent limit of the engine\<close>

text \<open>
  Claim C4, as section 4.1 orders the steps: once \<open>totalAgents\<close> has reached 10000,
  agent creation fails and the engine state is unchanged: no agent is created and no
  counter is incremented.  The error is the one of the first step that rejects: the name
  is validated first (\<open>AgentNameTooLong\<close>), the limits second
  (\<open>InvalidLimitConfiguration\<close>), the agent count third (\<open>MaxAgentsReached\<close>).  So
  the error is \<open>MaxAgentsReached\<close> exactly for the requests whose name and limits are
  valid.
\<close>

theorem C4_max_agents_reached:
  "10000 \<le> totalAgents (config st) \<Longrightarrow>
     spec_createAgent appendLeaf owner now params st =
       (Some (if \<not> (1 \<le> length (param_name params) \<and> length (param_name params) \<le> 32)
                then AgentNameTooLong
              else if param_dailyLimit params < param_maxSolPerTransaction params
                then InvalidLimitConfiguration
              else MaxAgentsReached), st)
     \<and> (\<exists>e. spec_createAgent appendLeaf owner now params st = (Some e, st))
     \<and> (spec_createAgent appendLeaf owner now params st = (Some MaxAgentsReached, st)
          \<longleftrightarrow> (1 \<le> length (param_name params) \<and> length (param_name params) \<le> 32)
               \<and> param_maxSolPerTransaction params \<le> param_dailyLimit params)"
  by (auto simp: spec_createAgent_def spec_create_def MAX_AGENTS_PER_WALLET_def)

theorem C4_max_agents_reached_witness:
  "10000 \<le> totalAgents (config sampleEngine)
   \<and> ((1 \<le> length (param_name sampleParams) \<and> length (param_name sampleParams) \<le> 32)
        \<and> param_maxSolPerTransaction sampleParams \<le> param_dailyLimit sampleParams)
   \<and> spec_createAgent sampleAppendLeaf (PublicKey [1]) 5000 sampleParams sampleEngine
       = (Some MaxAgentsReached, sampleEngine)"
proof -
  have h: "10000 \<le> totalAgents (config sampleEngine)"
    by (simp add: sampleEngine_def)
  have v: "(1 \<le> length (param_name sampleParams) \<and> length (param_name sampleParams) \<le> 32)
        \<and> param_maxSolPerTransaction sampleParams \<le> param_dailyLimit sampleParams"
    by (simp add: sampleParams_def)
  note T = C4_max_agents_reached
             [where st = sampleEngine and params = sampleParams
                and appendLeaf = sampleAppendLeaf and owner = "PublicKey [1]" and now = 5000,
              OF h]
  show ?thesis
    by (rule conjI [OF h conjI [OF v iffD2 [OF conjunct2 [OF conjunct2 [OF T]] v]]])
qed

text \<open>
  Claim C4 as stated fails: at \<open>totalAgents = 10000\<close> a request with an empty name is
  rejected with \<open>AgentNameTooLong\<close>, and a request whose daily limit is below its
  per-operation limit with \<open>InvalidLimitConfiguration\<close>; neither error is
  \<open>MaxAgentsReached\<close>.  The state is unchanged in both cases.
\<close>

theorem C4_other_error_counterexample:
  "10000 \<le> totalAgents (config sampleEngine)
   \<and> spec_createAgent sampleAppendLeaf (PublicKey [1]) 5000
        (sampleParams\<lparr>param_name := []\<rparr>) sampleEngine
       = (Some AgentNameTooLong, sampleEngine)
   \<and> spec_createAgent sampleAppendLeaf (PublicKey [1]) 5000
        (sampleParams\<lparr>param_dailyLimit := 0\<rparr>) sampleEngine
       = (Some InvalidLimitConfiguration, sampleEngine)
   \<and> AgentNameTooLong \<noteq> MaxAgentsReached
   \<and> InvalidLimitConfiguration \<noteq> MaxAgentsReached"
  by (simp add: spec_createAgent_def spec_create_def sampleEngine_def sampleParams_def
        MAX_AGENTS_PER_WALLET_def)

text \<open>Below the limit the same request creates agent 9999 and increments the counter.\<close>

lemma spec_createAgent_below_limit:
  "fst (spec_createAgent sampleAppendLeaf (PublicKey [1]) 5000 sampleParams
         (sampleEngine\<lparr>config := (config sampleEngine)\<lparr>totalAgents := 9999\<rparr>,
                       leafStore := 9999\<rparr>)) = None
   \<and> totalAgents (config (snd (spec_createAgent sampleAppendLeaf (PublicKey [1]) 5000
         sampleParams
         (sampleEngine\<lparr>config := (config sampleEngine)\<lparr>totalAgents := 9999\<rparr>,
                       leafStore := 9999\<rparr>)))) = 10000"
  by (simp add: spec_createAgent_def spec_create_def sampleEngine_def sampleParams_def
        sampleAppendLeaf_def MAX_AGENTS_PER_WALLET_def Let_def)

end
